theory Spec2Isabelle
  imports Main "HOL-Library.Sublist"
begin

section \<open>Python values: errors, indexing, strings\<close>

text \<open>
  The exceptions the modelled code can raise are values of \<open>py_error\<close>; a computation that
  may raise returns \<open>py_error + 'a\<close> with \<open>Inl\<close> for the exception. \<open>RetryError\<close> is what
  the retry decorator of \<^verbatim>\<open>GeminiEngine.chat_completion\<close> raises once its attempts are
  used up; \<open>OracleFailure\<close> stands for any exception an engine without a retry layer lets
  through.
\<close>

datatype py_error = IndexError | ValueError | RetryError | OracleFailure

definition bind_result :: "py_error + 'a \<Rightarrow> ('a \<Rightarrow> py_error + 'b) \<Rightarrow> py_error + 'b" where
  "bind_result x f = (case x of Inl e \<Rightarrow> Inl e | Inr v \<Rightarrow> f v)"

text \<open>\<^verbatim>\<open>xs[i]\<close>: a negative index counts from the end, an index out of range raises.\<close>

definition py_index :: "'a list \<Rightarrow> int \<Rightarrow> py_error + 'a" where
  "py_index xs i =
     (if 0 \<le> i \<and> i < int (length xs) then Inr (xs ! nat i)
      else if i < 0 \<and> - int (length xs) \<le> i then Inr (xs ! nat (int (length xs) + i))
      else Inl IndexError)"

text \<open>
  Strings are lists of \<open>char\<close>, read as ASCII code points: the case conversions and the
  whitespace test below are Python's \<^verbatim>\<open>str.lower\<close>, \<^verbatim>\<open>str.upper\<close> and \<^verbatim>\<open>str.isspace\<close>
  on ASCII text (codes 9 to 13 and 28 to 32 are whitespace); a code above 127 is left
  unchanged and is no whitespace.
\<close>

definition newline :: char where
  "newline = CHR 0x0A"

definition isspace :: "char \<Rightarrow> bool" where
  "isspace c = (let n = (of_char c :: nat) in (9 \<le> n \<and> n \<le> 13) \<or> (28 \<le> n \<and> n \<le> 32))"

definition lower_char :: "char \<Rightarrow> char" where
  "lower_char c = (let n = (of_char c :: nat) in if 65 \<le> n \<and> n \<le> 90 then char_of (n + 32) else c)"

definition upper_char :: "char \<Rightarrow> char" where
  "upper_char c = (let n = (of_char c :: nat) in if 97 \<le> n \<and> n \<le> 122 then char_of (n - 32) else c)"

definition str_lower :: "string \<Rightarrow> string" where
  "str_lower s = map lower_char s"

definition str_upper :: "string \<Rightarrow> string" where
  "str_upper s = map upper_char s"

definition str_strip :: "string \<Rightarrow> string" where
  "str_strip s = rev (dropWhile isspace (rev (dropWhile isspace s)))"

text \<open>
  \<^verbatim>\<open>s.find(sub)\<close>: the index of the leftmost occurrence of \<open>sub\<close> in \<open>s\<close>, \<open>None\<close> for
  Python's -1. \<^verbatim>\<open>sub in s\<close> is \<open>str_contains sub s\<close>.
\<close>

fun str_find :: "string \<Rightarrow> string \<Rightarrow> nat option" where
  "str_find sub [] = (if sub = [] then Some 0 else None)"
| "str_find sub (c # cs) =
     (if prefix sub (c # cs) then Some 0 else map_option Suc (str_find sub cs))"

definition str_contains :: "string \<Rightarrow> string \<Rightarrow> bool" where
  "str_contains sub s = (str_find sub s \<noteq> None)"

text \<open>
  \<^verbatim>\<open>s.split(sep)\<close> cuts \<open>s\<close> at the occurrences of \<open>sep\<close>, found from the left and not
  overlapping. Python raises \<^verbatim>\<open>ValueError\<close> on the empty separator: that is \<open>py_split\<close>;
  \<open>split_on\<close> is the cutting itself (on the empty separator it returns the string whole,
  a case \<open>py_split\<close> never reaches).
\<close>

function split_on :: "string \<Rightarrow> string \<Rightarrow> string list" where
  "split_on sep s =
     (if sep = [] then [s]
      else case str_find sep s of
             None \<Rightarrow> [s]
           | Some i \<Rightarrow> take i s # split_on sep (drop (i + length sep) s))"
  by pat_completeness auto

lemma str_find_nonempty: "str_find sub s = Some i \<Longrightarrow> sub \<noteq> [] \<Longrightarrow> s \<noteq> []"
  by (cases s) auto

termination split_on
proof (relation "measure (\<lambda>(sep, s). length s)")
  show "wf (measure (\<lambda>(sep, s). length s))" by simp
next
  fix sep s :: string and i :: nat
  assume "sep \<noteq> []" and "str_find sep s = Some i"
  then have "s \<noteq> []" by (auto dest: str_find_nonempty)
  with \<open>sep \<noteq> []\<close> show "((sep, drop (i + length sep) s), (sep, s)) \<in> measure (\<lambda>(sep, s). length s)"
    by (cases sep) auto
qed

declare split_on.simps [simp del]

definition py_split :: "string \<Rightarrow> string \<Rightarrow> py_error + string list" where
  "py_split sep s = (if sep = [] then Inl ValueError else Inr (split_on sep s))"

text \<open>
  \<^verbatim>\<open>re.findall(r'\((.*?)\)', s)\<close>: from each opening parenthesis, the shortest text up to
  the next closing parenthesis; the dot matches no newline, so a group that meets a
  newline first does not match and the scan goes on one character further. After a match
  the scan resumes behind its closing parenthesis. \<open>take_group\<close> reads the text behind an
  opening parenthesis and returns the group and the rest.
\<close>

fun take_group :: "string \<Rightarrow> (string \<times> string) option" where
  "take_group [] = None"
| "take_group (c # cs) =
     (if c = CHR '')'' then Some ([], cs)
      else if c = newline then None
      else map_option (\<lambda>(g, r). (c # g, r)) (take_group cs))"

lemma take_group_shorter: "take_group s = Some (g, r) \<Longrightarrow> length r < length s"
  by (induction s arbitrary: g) (auto split: if_splits)

function findall_groups :: "string \<Rightarrow> string list" where
  "findall_groups [] = []"
| "findall_groups (c # cs) =
     (if c = CHR ''(''
      then case take_group cs of
             Some (g, r) \<Rightarrow> g # findall_groups r
           | None \<Rightarrow> findall_groups cs
      else findall_groups cs)"
  by pat_completeness auto

termination findall_groups
  by (relation "measure length") (auto dest: take_group_shorter)

section \<open>Prompt texts (\<^verbatim>\<open>utils.py\<close>, \<^verbatim>\<open>prompts/prompting.py\<close>)\<close>

type_synonym triplet = "string \<times> string \<times> string"

text \<open>A chat message is the pair of its role and its content.\<close>

type_synonym message = "string \<times> string"

fun get_triplet_string :: "triplet \<Rightarrow> string" where
  "get_triplet_string (s, r, ob) = ''('' @ s @ '', '' @ r @ '', '' @ ob @ '')''"

text \<open>\<^verbatim>\<open>sep.join(xs)\<close>\<close>

fun str_join :: "string \<Rightarrow> string list \<Rightarrow> string" where
  "str_join sep [] = []"
| "str_join sep [x] = x"
| "str_join sep (x # y # ys) = x @ sep @ str_join sep (y # ys)"

definition process_types :: "string list \<Rightarrow> string" where
  "process_types allowed_types =
     (let quoted = map (\<lambda>t. [CHR 0x27] @ t @ [CHR 0x27]) allowed_types
      in [newline, CHR ''-''] @ str_join [newline, CHR ''-''] quoted @ [newline])"

subsection \<open>\<^verbatim>\<open>ExtractorPrompting\<close>\<close>

text \<open>
  The system prompt is read from a resource file that is not part of the sources; it is a
  parameter of the messages.
\<close>

definition extractor_user_instruction :: string where
  "extractor_user_instruction = ''Extract relations triplet from the following passage:''"

definition extractor_allowed_types_prompt :: string where
  "extractor_allowed_types_prompt = ''Only extract entities of the following types:''"

definition extractor_get_messages :: "string \<Rightarrow> string \<Rightarrow> string list \<Rightarrow> message list" where
  "extractor_get_messages system_prompt passage allowed_types =
     [(''system'', system_prompt),
      (''user'', extractor_user_instruction @ '' '' @ passage @ [newline]
                 @ extractor_allowed_types_prompt @ '' '' @ process_types allowed_types @ [newline])]"

text \<open>
  The five normalised parts of a group of three fields, as both parsers compute them:
  the first and the last piece of a field cut at its colons, stripped, the name in lower
  and the type in upper case.
\<close>

definition entity_of :: "string \<Rightarrow> py_error + string" where
  "entity_of field =
     bind_result (py_split '':'' field) (\<lambda>parts.
     bind_result (py_index parts 0) (\<lambda>p. Inr (str_lower (str_strip p))))"

definition type_of :: "string \<Rightarrow> py_error + string" where
  "type_of field =
     bind_result (py_split '':'' field) (\<lambda>parts.
     bind_result (py_index parts (- 1)) (\<lambda>p. Inr (str_upper (str_strip p))))"

definition relation_of :: "string \<Rightarrow> string" where
  "relation_of field = str_lower (str_strip field)"

record parts =
  entity1 :: string
  type1 :: string
  relation :: string
  entity2 :: string
  type2 :: string

definition standardize :: "string list \<Rightarrow> py_error + parts" where
  "standardize split =
     bind_result (py_index split 0) (\<lambda>f0.
     bind_result (entity_of f0) (\<lambda>e1.
     bind_result (type_of f0) (\<lambda>t1.
     bind_result (py_index split 1) (\<lambda>f1.
     bind_result (py_index split 2) (\<lambda>f2.
     bind_result (entity_of f2) (\<lambda>e2.
     bind_result (type_of f2) (\<lambda>t2.
       Inr \<lparr>entity1 = e1, type1 = t1, relation = relation_of f1,
            entity2 = e2, type2 = t2\<rparr>)))))))"

text \<open>The triplet built from the parts: \<^verbatim>\<open>(f"{entity1}:{type1}", relation, f"{entity2}:{type2}")\<close>.\<close>

definition render :: "parts \<Rightarrow> triplet" where
  "render p = (entity1 p @ '':'' @ type1 p, relation p, entity2 p @ '':'' @ type2 p)"

text \<open>
  \<^verbatim>\<open>ExtractorPrompting.format_triplets\<close>. The loop over the groups carries the list
  \<open>valid\<close> and the warnings issued so far (\<^verbatim>\<open>warnings.warn\<close> under Python's default filter
  reports and returns). \<^verbatim>\<open>list(set(valid))\<close> leaves one copy of every triplet in an order
  Python does not fix; the model takes \<open>remdups\<close> (the last copy of each, in the order
  of the list), and no statement below depends on the order.
\<close>

fun format_loop ::
  "string list \<Rightarrow> string list \<Rightarrow> triplet list \<Rightarrow> string list \<Rightarrow> py_error + (triplet list \<times> string list)"
where
  "format_loop [] allowed_types valid warns = Inr (valid, warns)"
| "format_loop (r # relations) allowed_types valid warns =
     bind_result (py_split '','' r) (\<lambda>split.
       if length split \<noteq> 3
       then format_loop relations allowed_types valid
              (warns @ [''Cannot get a valid triplet from '' @ r])
       else
         bind_result (standardize split) (\<lambda>p.
           if type1 p \<notin> set allowed_types
           then format_loop relations allowed_types valid
                  (warns @ [''Type '' @ type1 p @ '' is not in allowed types.''])
           else if type2 p \<notin> set allowed_types
           then format_loop relations allowed_types valid
                  (warns @ [''Type '' @ type2 p @ '' is not in allowed types.''])
           else format_loop relations allowed_types (valid @ [render p]) warns))"

definition format_triplets :: "string \<Rightarrow> string list \<Rightarrow> py_error + (triplet list \<times> string list)" where
  "format_triplets extracted_relations allowed_types =
     bind_result (format_loop (findall_groups extracted_relations) allowed_types [] [])
       (\<lambda>(valid, warns). Inr (remdups valid, warns))"

subsection \<open>\<^verbatim>\<open>BuilderPrompting\<close>\<close>

text \<open>The fields of the dataclass, at their default values.\<close>

definition add_key :: string where
  "add_key = ''Add triplet:''"

definition discard_triplet_value :: string where
  "discard_triplet_value = ''None''"

definition builder_allowed_types_prompt :: string where
  "builder_allowed_types_prompt = ''Subject and object must be of one of the following types:''"

definition already_extracted_prompt :: string where
  "already_extracted_prompt = ''Triplets already in the Knowledge Graph:''"

definition proposed_prompt :: string where
  "proposed_prompt = ''Proposed triplet:''"

definition apostrophe :: char where
  "apostrophe = CHR 0x27"

definition builder_get_messages ::
  "string \<Rightarrow> triplet \<Rightarrow> string list \<Rightarrow> string list \<Rightarrow> message list"
where
  "builder_get_messages system_prompt proposed_relation existing_relations allowed_types =
     (let allowed_types_string = process_types allowed_types;
          extracted = (if length existing_relations = 0 then ''Empty graph''
                       else str_join [newline] existing_relations)
      in [(''system'', system_prompt),
          (''user'', already_extracted_prompt @ '':'' @ [newline] @ '' '' @ extracted @ [newline]
                     @ builder_allowed_types_prompt @ '' '' @ allowed_types_string @ [newline]
                     @ proposed_prompt @ '': '' @ get_triplet_string proposed_relation
                     @ [newline])])"

definition retry_messages ::
  "string \<Rightarrow> triplet \<Rightarrow> string list \<Rightarrow> string \<Rightarrow> string \<Rightarrow> string list \<Rightarrow> message list"
where
  "retry_messages system_prompt proposed_relation existing_relations generation error
      allowed_types =
     (let standard_msgs =
            builder_get_messages system_prompt proposed_relation existing_relations allowed_types;
          retry_message =
            (''user'', ''Your last generation:'' @ [newline] @ '' '' @ generation @ [newline]
                       @ '' generated the following error message:'' @ error)
      in standard_msgs @ [retry_message])"

text \<open>
  What \<^verbatim>\<open>extract_new_triplet\<close> returns: a triplet, an error text for the retry prompt, or
  Python's \<^verbatim>\<open>None\<close>.
\<close>

datatype decision = Triplet triplet | ErrorSignal string | NoOp

text \<open>
  The four error texts. The third formats the list of allowed types with Python's
  \<^verbatim>\<open>repr\<close>, which is written out here for type names without quotes, backslashes and
  control characters (\<^verbatim>\<open>repr\<close> would escape those).
\<close>

definition repr_list :: "string list \<Rightarrow> string" where
  "repr_list xs = ''['' @ str_join '', '' (map (\<lambda>t. [apostrophe] @ t @ [apostrophe]) xs) @ '']''"

definition missing_key_message :: string where
  "missing_key_message =
     ''The key '' @ [apostrophe] @ add_key @ [apostrophe]
     @ '' is not present in the generated text. Please try again adding ''
     @ [apostrophe] @ add_key @ [apostrophe] @ '' before the proposed triplet.''"

definition arity_message :: string where
  "arity_message =
     ''A valid relation must have exactly 3 elements. ''
     @ ''Please try again producing a valid (subject:type, relation, object:type) triplet.''"

definition types_message :: "string list \<Rightarrow> string" where
  "types_message allowed_entity_types =
     ''The types of the subject and object of the triplet must be in ''
     @ repr_list allowed_entity_types @ ''.''
     @ ''You cannot add other types. Please try again returning either a valid triplet or ''
     @ discard_triplet_value @ ''.''"

definition invalid_value_message :: string where
  "invalid_value_message =
     ''The value of the '' @ add_key @ '' key is not valid. ''
     @ ''The only allowed values are:'' @ [newline]
     @ '' - a single valid triplet (subject:type, relation, object:type) ''
     @ ''to be added - '' @ [apostrophe] @ ''None'' @ [apostrophe]
     @ '' if the relation is already present in the graph.''"

text \<open>
  \<^verbatim>\<open>BuilderPrompting.extract_new_triplet\<close>. The discard value is searched with
  \<^verbatim>\<open>re.findall\<close>; its default \<^verbatim>\<open>None\<close> is a pattern of plain letters, which has a match
  exactly when the text contains it.
\<close>

definition extract_new_triplet :: "string \<Rightarrow> string list \<Rightarrow> py_error + decision" where
  "extract_new_triplet generation allowed_entity_types =
     (if \<not> str_contains add_key generation then Inr (ErrorSignal missing_key_message)
      else
        bind_result (py_split add_key generation) (\<lambda>pieces.
        bind_result (py_index pieces 1) (\<lambda>proposed_triplet.
          if str_contains discard_triplet_value proposed_triplet then Inr NoOp
          else
            let t = findall_groups proposed_triplet in
            if length t = 1 then
              bind_result (py_index t 0) (\<lambda>t0.
              bind_result (py_split '','' t0) (\<lambda>triplet.
                if length triplet \<noteq> 3 then Inr (ErrorSignal arity_message)
                else
                  bind_result (standardize triplet) (\<lambda>p.
                    if type1 p \<notin> set allowed_entity_types \<or> type2 p \<notin> set allowed_entity_types
                    then Inr (ErrorSignal (types_message allowed_entity_types))
                    else Inr (Triplet (render p)))))
            else Inr (ErrorSignal invalid_value_message))))"

section \<open>The run: engines, store, trace\<close>

text \<open>
  A chat engine is a function of the number of the call and of the messages; it returns
  the generated text or raises. The number of the call lets the text differ between two
  calls with the same messages. Generation options (token limits, temperature) go to
  the engine only and are not modelled.
\<close>

type_synonym engine = "nat \<Rightarrow> message list \<Rightarrow> py_error + string"

text \<open>
  \<^verbatim>\<open>GeminiEngine.chat_completion\<close> under its decorator
  \<^verbatim>\<open>@retry(wait=wait_exponential(...), stop=stop_after_attempt(5))\<close>: the body is tried
  until it returns, five times at most, then \<^verbatim>\<open>RetryError\<close> is raised. The waiting time
  between attempts is not modelled. \<open>send n a content\<close> is attempt \<open>a\<close> of call \<open>n\<close> to
  the remote service with the content of the last message: \<open>None\<close> when it raises.
\<close>

fun retry_attempts :: "nat \<Rightarrow> nat \<Rightarrow> (nat \<Rightarrow> 'a option) \<Rightarrow> py_error + 'a" where
  "retry_attempts 0 a body = Inl RetryError"
| "retry_attempts (Suc k) a body =
     (case body a of Some r \<Rightarrow> Inr r | None \<Rightarrow> retry_attempts k (Suc a) body)"

definition gemini_chat_completion :: "(nat \<Rightarrow> nat \<Rightarrow> string \<Rightarrow> string option) \<Rightarrow> engine" where
  "gemini_chat_completion send n messages =
     retry_attempts 5 1
       (\<lambda>a. case py_index messages (- 1) of
               Inl e \<Rightarrow> None
             | Inr m \<Rightarrow> send n a (snd m))"

text \<open>
  What a run does to the world, in order: the calls to the two engines, the warnings, the
  retrievals from the store and the additions to it.
\<close>

datatype event =
    ExtractorCompletion "message list"
  | BuilderCompletion "message list"
  | Warned string
  | RetrieveSimilar triplet
  | AddTriplets "triplet list" string
  | ExtractorClearCaches
  | BuilderClearCaches

text \<open>
  The module \<^verbatim>\<open>kg_builder/relations.py\<close> (the store, \<^verbatim>\<open>SearchableRelations\<close> over
  \<^verbatim>\<open>RelationsData\<close>) is not among the sources. The store is a value of any type \<open>'st\<close>;
  its two methods the builder calls, its list of allowed types, the two engines, their
  system prompts and the text splitter are the parameters of a run.
\<close>

record 'st env =
  extractor_chat_completion :: engine
  builder_chat_completion :: engine
  extractor_system_prompt :: string
  builder_system_prompt :: string
  allowed_entity_types :: "string list"
  retrieve_similar_triplets :: "'st \<Rightarrow> triplet \<Rightarrow> string list"
  add_triplets :: "triplet list \<Rightarrow> string \<Rightarrow> 'st \<Rightarrow> 'st"
  split_text :: "string \<Rightarrow> string list"

record 'st run_state =
  clock :: nat
  store :: 'st
  trace :: "event list"

text \<open>
  A function that may raise after it has changed the state returns the state in both
  cases: \<open>(Inl e, st)\<close> is the exception \<open>e\<close> leaving the function with the world at \<open>st\<close>.
\<close>

section \<open>\<^verbatim>\<open>RelationsExtractor\<close> (\<^verbatim>\<open>extractor.py\<close>)\<close>

definition extract_from_passage ::
  "'st env \<Rightarrow> string \<Rightarrow> 'st run_state \<Rightarrow> (py_error + triplet list) \<times> 'st run_state"
where
  "extract_from_passage env passage st =
     (let messages = extractor_get_messages (extractor_system_prompt env) passage
                       (allowed_entity_types env);
          st1 = st\<lparr>clock := Suc (clock st),
                   trace := trace st @ [ExtractorCompletion messages]\<rparr>
      in case extractor_chat_completion env (clock st) messages of
           Inl e \<Rightarrow> (Inl e, st1)
         | Inr decoded \<Rightarrow>
             (case format_triplets decoded (allowed_entity_types env) of
                Inl e \<Rightarrow> (Inl e, st1)
              | Inr (triplets, warns) \<Rightarrow>
                  (Inr triplets, st1\<lparr>trace := trace st1 @ map Warned warns\<rparr>)))"

section \<open>\<^verbatim>\<open>KGBuilder\<close> (\<^verbatim>\<open>builder.py\<close>)\<close>

definition decision_from_messages ::
  "'st env \<Rightarrow> message list \<Rightarrow> 'st run_state
     \<Rightarrow> (py_error + (decision \<times> string)) \<times> 'st run_state"
where
  "decision_from_messages env messages st =
     (let st1 = st\<lparr>clock := Suc (clock st),
                   trace := trace st @ [BuilderCompletion messages]\<rparr>
      in case builder_chat_completion env (clock st) messages of
           Inl e \<Rightarrow> (Inl e, st1)
         | Inr decoded \<Rightarrow>
             (case extract_new_triplet decoded (allowed_entity_types env) of
                Inl e \<Rightarrow> (Inl e, st1)
              | Inr decision \<Rightarrow> (Inr (decision, decoded), st1)))"

definition validate_relation ::
  "'st env \<Rightarrow> triplet \<Rightarrow> string list \<Rightarrow> 'st run_state
     \<Rightarrow> (py_error + (decision \<times> string)) \<times> 'st run_state"
where
  "validate_relation env proposed_relation similar_relations st =
     decision_from_messages env
       (builder_get_messages (builder_system_prompt env) proposed_relation similar_relations
          (allowed_entity_types env)) st"

definition retry_validation ::
  "'st env \<Rightarrow> triplet \<Rightarrow> string \<Rightarrow> string \<Rightarrow> string list \<Rightarrow> 'st run_state
     \<Rightarrow> (py_error + (decision \<times> string)) \<times> 'st run_state"
where
  "retry_validation env proposed_relation error previous_generation similar_relations st =
     decision_from_messages env
       (retry_messages (builder_system_prompt env) proposed_relation similar_relations
          previous_generation error (allowed_entity_types env)) st"

text \<open>\<^verbatim>\<open>len(decision)\<close> of a decision that is a tuple of three strings.\<close>

fun tuple_len :: "triplet \<Rightarrow> nat" where
  "tuple_len (s, r, ob) = 3"

text \<open>
  Lines 70 to 72 of \<^verbatim>\<open>build_kg\<close>: the state after
  \<^verbatim>\<open>if len(decision) > 0: self.relations_data.add_triplets([decision], passage)\<close>.
\<close>

definition commit :: "'st env \<Rightarrow> triplet \<Rightarrow> string \<Rightarrow> 'st run_state \<Rightarrow> 'st run_state" where
  "commit env decision passage st =
     (if tuple_len decision > 0
      then st\<lparr>store := add_triplets env [decision] passage (store st),
              trace := trace st @ [AddTriplets [decision] passage]\<rparr>
      else st)"

text \<open>
  The body of the loop of \<^verbatim>\<open>build_kg\<close> for one proposed relation: \<open>Inr (Some t)\<close> when
  \<open>t\<close> is appended to \<^verbatim>\<open>added_triplets\<close>, \<open>Inr None\<close> at a \<^verbatim>\<open>continue\<close>.
\<close>

definition build_kg_step ::
  "'st env \<Rightarrow> triplet \<Rightarrow> string \<Rightarrow> 'st run_state \<Rightarrow> (py_error + triplet option) \<times> 'st run_state"
where
  "build_kg_step env rel passage st =
     (let similar_relations = retrieve_similar_triplets env (store st) rel;
          st1 = st\<lparr>trace := trace st @ [RetrieveSimilar rel]\<rparr>
      in case validate_relation env rel similar_relations st1 of
           (Inl e, st2) \<Rightarrow> (Inl e, st2)
         | (Inr (decision, generated_text), st2) \<Rightarrow>
             (case decision of
                NoOp \<Rightarrow> (Inr None, st2)
              | ErrorSignal err \<Rightarrow>
                  (case retry_validation env rel err generated_text similar_relations st2 of
                     (Inl e, st3) \<Rightarrow> (Inl e, st3)
                   | (Inr (decision2, generated_text2), st3) \<Rightarrow>
                       (case decision2 of
                          NoOp \<Rightarrow> (Inr None, st3)
                        | ErrorSignal err2 \<Rightarrow> (Inr None, st3)
                        | Triplet t \<Rightarrow> (Inr (Some t), commit env t passage st3)))
              | Triplet t \<Rightarrow> (Inr (Some t), commit env t passage st2)))"

fun build_kg_loop ::
  "'st env \<Rightarrow> triplet list \<Rightarrow> string \<Rightarrow> triplet list \<Rightarrow> 'st run_state
     \<Rightarrow> (py_error + triplet list) \<times> 'st run_state"
where
  "build_kg_loop env [] passage added_triplets st = (Inr added_triplets, st)"
| "build_kg_loop env (rel # rels) passage added_triplets st =
     (case build_kg_step env rel passage st of
        (Inl e, st') \<Rightarrow> (Inl e, st')
      | (Inr None, st') \<Rightarrow> build_kg_loop env rels passage added_triplets st'
      | (Inr (Some t), st') \<Rightarrow> build_kg_loop env rels passage (added_triplets @ [t]) st')"

definition build_kg ::
  "'st env \<Rightarrow> triplet list \<Rightarrow> string \<Rightarrow> 'st run_state
     \<Rightarrow> (py_error + triplet list) \<times> 'st run_state"
where
  "build_kg env proposed_relations passage st = build_kg_loop env proposed_relations passage [] st"

section \<open>\<^verbatim>\<open>EBWorkflow\<close> (\<^verbatim>\<open>workflow.py\<close>)\<close>

text \<open>The first loop of \<^verbatim>\<open>__call__\<close>, with the list \<^verbatim>\<open>extracted_triplets\<close> it appends to.\<close>

fun extract_loop ::
  "'st env \<Rightarrow> string list \<Rightarrow> triplet list list \<Rightarrow> 'st run_state
     \<Rightarrow> (py_error + triplet list list) \<times> 'st run_state"
where
  "extract_loop env [] extracted_triplets st = (Inr extracted_triplets, st)"
| "extract_loop env (chunk # chunks) extracted_triplets st =
     (case extract_from_passage env chunk st of
        (Inl e, st') \<Rightarrow> (Inl e, st')
      | (Inr triplets, st') \<Rightarrow> extract_loop env chunks (extracted_triplets @ [triplets]) st')"

text \<open>The second loop, over \<^verbatim>\<open>enumerate(chunks)\<close>, reading \<^verbatim>\<open>extracted_triplets[i]\<close>.\<close>

fun build_loop ::
  "'st env \<Rightarrow> (nat \<times> string) list \<Rightarrow> triplet list list \<Rightarrow> 'st run_state
     \<Rightarrow> (py_error + unit) \<times> 'st run_state"
where
  "build_loop env [] extracted_triplets st = (Inr (), st)"
| "build_loop env ((i, c) # ics) extracted_triplets st =
     (case py_index extracted_triplets (int i) of
        Inl e \<Rightarrow> (Inl e, st)
      | Inr proposed \<Rightarrow>
          (case build_kg env proposed c st of
             (Inl e, st') \<Rightarrow> (Inl e, st')
           | (Inr added, st') \<Rightarrow> build_loop env ics extracted_triplets st'))"

definition clear_caches :: "bool \<Rightarrow> event \<Rightarrow> 'st run_state \<Rightarrow> 'st run_state" where
  "clear_caches delete_models_after_use ev st =
     (if delete_models_after_use then st\<lparr>trace := trace st @ [ev]\<rparr> else st)"

text \<open>
  \<^verbatim>\<open>EBWorkflow.__call__\<close>; the store it returns is the \<open>store\<close> of the final state. The
  progress bars are not modelled, and \<^verbatim>\<open>clear_caches\<close> of an engine is an event only.
\<close>

definition workflow ::
  "'st env \<Rightarrow> string \<Rightarrow> bool \<Rightarrow> 'st run_state \<Rightarrow> (py_error + unit) \<times> 'st run_state"
where
  "workflow env text delete_models_after_use st =
     (let chunks = split_text env text
      in case extract_loop env chunks [] st of
           (Inl e, st1) \<Rightarrow> (Inl e, st1)
         | (Inr extracted_triplets, st1) \<Rightarrow>
             (let st2 = clear_caches delete_models_after_use ExtractorClearCaches st1
              in case build_loop env (enumerate 0 chunks) extracted_triplets st2 of
                   (Inl e, st3) \<Rightarrow> (Inl e, st3)
                 | (Inr u, st3) \<Rightarrow>
                     (Inr (), clear_caches delete_models_after_use BuilderClearCaches st3)))"

section \<open>Vocabulary of the claims\<close>

text \<open>
  The type of an entity written \<^verbatim>\<open>name:TYPE\<close>, read back from the text: what stands
  behind its last colon.
\<close>

definition type_tag :: "string \<Rightarrow> string" where
  "type_tag s = rev (takeWhile (\<lambda>x. x \<noteq> CHR '':'') (rev s))"

text \<open>
  The groups of a text that \<^verbatim>\<open>format_triplets\<close> turns into a triplet, those it discards
  for a type outside the list, and the warning it issues for one of the latter.
\<close>

definition accepted_group :: "string list \<Rightarrow> string \<Rightarrow> parts \<Rightarrow> bool" where
  "accepted_group allowed r p \<longleftrightarrow>
     length (split_on '','' r) = 3 \<and> standardize (split_on '','' r) = Inr p
     \<and> type1 p \<in> set allowed \<and> type2 p \<in> set allowed"

definition rejected_group :: "string list \<Rightarrow> string \<Rightarrow> parts \<Rightarrow> bool" where
  "rejected_group allowed r p \<longleftrightarrow>
     length (split_on '','' r) = 3 \<and> standardize (split_on '','' r) = Inr p
     \<and> (type1 p \<notin> set allowed \<or> type2 p \<notin> set allowed)"

definition type_warning :: "string list \<Rightarrow> parts \<Rightarrow> string" where
  "type_warning allowed p =
     ''Type '' @ (if type1 p \<notin> set allowed then type1 p else type2 p)
     @ '' is not in allowed types.''"

text \<open>
  For one proposed relation met at state \<open>st\<close>: the similar triplets retrieved, the
  messages of the first attempt, and the messages of the retry after the generation \<open>g\<close>
  was answered with the error text \<open>err\<close>.
\<close>

definition similar_at :: "'st env \<Rightarrow> 'st run_state \<Rightarrow> triplet \<Rightarrow> string list" where
  "similar_at env st rel = retrieve_similar_triplets env (store st) rel"

definition first_prompt :: "'st env \<Rightarrow> 'st run_state \<Rightarrow> triplet \<Rightarrow> message list" where
  "first_prompt env st rel =
     builder_get_messages (builder_system_prompt env) rel (similar_at env st rel)
       (allowed_entity_types env)"

definition retry_prompt ::
  "'st env \<Rightarrow> 'st run_state \<Rightarrow> triplet \<Rightarrow> string \<Rightarrow> string \<Rightarrow> message list"
where
  "retry_prompt env st rel g err =
     retry_messages (builder_system_prompt env) rel (similar_at env st rel) g err
       (allowed_entity_types env)"

text \<open>The additions to the store among the events of a trace, in order.\<close>

fun commits :: "event list \<Rightarrow> (triplet list \<times> string) list" where
  "commits [] = []"
| "commits (AddTriplets ts passage # evs) = (ts, passage) # commits evs"
| "commits (ev # evs) = commits evs"

text \<open>The events of the extraction phase and those of the validation phase.\<close>

fun extraction_event :: "event \<Rightarrow> bool" where
  "extraction_event (ExtractorCompletion m) = True"
| "extraction_event (Warned w) = True"
| "extraction_event ev = False"

fun validation_event :: "event \<Rightarrow> bool" where
  "validation_event (BuilderCompletion m) = True"
| "validation_event (RetrieveSimilar rel) = True"
| "validation_event (AddTriplets ts passage) = True"
| "validation_event ev = False"

text \<open>
  A triplet whose subject and object both carry a type of the list, and the single group
  behind the key of a generation that holds no discard value: the group
  \<^verbatim>\<open>extract_new_triplet\<close> parses.
\<close>

definition typed_triplet :: "string list \<Rightarrow> triplet \<Rightarrow> bool" where
  "typed_triplet allowed t \<longleftrightarrow>
     (case t of (s, r, ob) \<Rightarrow> type_tag s \<in> set allowed \<and> type_tag ob \<in> set allowed)"

definition decision_group :: "string \<Rightarrow> string \<Rightarrow> bool" where
  "decision_group generation t0 \<longleftrightarrow>
     str_contains add_key generation
     \<and> \<not> str_contains discard_triplet_value (split_on add_key generation ! 1)
     \<and> findall_groups (split_on add_key generation ! 1) = [t0]"

text \<open>
  The order of validation in the words of the specification: the candidate lists are
  validated one after the other, each with its own passage, and an exception ends the
  run. The two phases of the workflow: the extraction over the passages of a document,
  and the validation of the extracted lists, begun at the state the extraction left.
\<close>

fun validate_in_order ::
  "'st env \<Rightarrow> (triplet list \<times> string) list \<Rightarrow> 'st run_state \<Rightarrow> (py_error + unit) \<times> 'st run_state"
where
  "validate_in_order env [] st = (Inr (), st)"
| "validate_in_order env ((candidates, passage) # rest) st =
     (case build_kg env candidates passage st of
        (Inl e, st') \<Rightarrow> (Inl e, st')
      | (Inr added, st') \<Rightarrow> validate_in_order env rest st')"

definition extraction_phase ::
  "'st env \<Rightarrow> string \<Rightarrow> 'st run_state \<Rightarrow> (py_error + triplet list list) \<times> 'st run_state"
where
  "extraction_phase env doc st = extract_loop env (split_text env doc) [] st"

definition validation_phase ::
  "'st env \<Rightarrow> string \<Rightarrow> bool \<Rightarrow> 'st run_state \<Rightarrow> triplet list list
     \<Rightarrow> (py_error + unit) \<times> 'st run_state"
where
  "validation_phase env doc d st ex =
     validate_in_order env (zip ex (split_text env doc))
       (clear_caches d ExtractorClearCaches (snd (extraction_phase env doc st)))"

section \<open>Sample runs\<close>

text \<open>
  Concrete parameters, for evaluating the model: an engine that answers call \<open>n\<close> with
  entry \<open>n\<close> of a script and raises beyond its end, and a store that is the list of the
  triplets added with their passages, retrieves all of them, and splits a document at
  vertical bars.
\<close>

definition scripted_engine :: "string list \<Rightarrow> engine" where
  "scripted_engine script n messages =
     (if n < length script then Inr (script ! n) else Inl OracleFailure)"

definition list_env :: "engine \<Rightarrow> engine \<Rightarrow> string list \<Rightarrow> (triplet \<times> string) list env" where
  "list_env extractor builder allowed =
     \<lparr>extractor_chat_completion = extractor,
      builder_chat_completion = builder,
      extractor_system_prompt = ''E'',
      builder_system_prompt = ''B'',
      allowed_entity_types = allowed,
      retrieve_similar_triplets = (\<lambda>s rel. map (\<lambda>(t, p). get_triplet_string t) s),
      add_triplets = (\<lambda>ts passage s. s @ map (\<lambda>t. (t, passage)) ts),
      split_text = split_on ''|''\<rparr>"

definition start :: "nat \<Rightarrow> (triplet \<times> string) list run_state" where
  "start n = \<lparr>clock = n, store = [], trace = []\<rparr>"

text \<open>A state whose store already holds one triplet.\<close>

definition seeded :: "nat \<Rightarrow> (triplet \<times> string) list run_state" where
  "seeded n = \<lparr>clock = n, store = [((''k:X'', ''r'', ''l:X''), ''q'')], trace = []\<rparr>"

definition degenerate_env :: "(triplet \<times> string) list env" where
  "degenerate_env =
     list_env (scripted_engine [])
       (scripted_engine [''Add triplet: (:PERSON, , :PERSON)'']) [''PERSON'']"

definition failing_env :: "(triplet \<times> string) list env" where
  "failing_env =
     list_env (scripted_engine [''(a:X, r, b:X)'', ''(c:X, r, d:X)''])
       (gemini_chat_completion
          (\<lambda>n a content. if n = 2 then None else Some ''Add triplet: (k:X, r, l:X)''))
       [''X'']"

definition retry_env :: "(triplet \<times> string) list env" where
  "retry_env =
     list_env (scripted_engine [])
       (scripted_engine [''(m:X, r, l:X)'', ''Add triplet: (m:X, r, l:X)'',
                         ''Add triplet: (m:Y, r, l:X)'', ''Add triplet: (m:Y, r, l:X)'',
                         ''Add triplet: (n:X, r, l:X)'', ''no key''])
       [''X'']"

definition two_passage_env :: "(triplet \<times> string) list env" where
  "two_passage_env =
     list_env (scripted_engine [''(a:X, r, b:X)'', ''(c:X, r, d:X) (c:Y, r, d:X)''])
       (scripted_engine [''-'', ''-'', ''Add triplet: (a:X, r, b:X)'',
                         ''Add triplet: (c:X, r, d:X)''])
       [''X'']"

section \<open>Facts about the string operations\<close>

lemma split_on_not_Nil: "split_on sep s \<noteq> []"
  by (subst split_on.simps) (simp split: option.split)

lemma str_find_single:
  "str_find [c] s = (if c \<in> set s then Some (length (takeWhile (\<lambda>x. x \<noteq> c) s)) else None)"
  by (induction s) auto

lemma split_on_single:
  "split_on [c] s =
     (if c \<in> set s
      then takeWhile (\<lambda>x. x \<noteq> c) s # split_on [c] (tl (dropWhile (\<lambda>x. x \<noteq> c) s))
      else [s])"
proof -
  have "take (length (takeWhile (\<lambda>x. x \<noteq> c) s)) s = takeWhile (\<lambda>x. x \<noteq> c) s"
    by (induction s) auto
  moreover have "drop (Suc (length (takeWhile (\<lambda>x. x \<noteq> c) s))) s = tl (dropWhile (\<lambda>x. x \<noteq> c) s)"
    by (induction s) auto
  ultimately show ?thesis
    by (subst split_on.simps) (simp add: str_find_single)
qed

lemma takeWhile_absent: "c \<notin> set s \<Longrightarrow> takeWhile (\<lambda>x. x \<noteq> c) s = s"
  by (induction s) auto

lemma hd_split_on_single: "hd (split_on [c] s) = takeWhile (\<lambda>x. x \<noteq> c) s"
  by (subst split_on_single) (simp add: takeWhile_absent)

lemma last_split_on_single: "last (split_on [c] s) = rev (takeWhile (\<lambda>x. x \<noteq> c) (rev s))"
proof (induction "length s" arbitrary: s rule: less_induct)
  case less
  show ?case
  proof (cases "c \<in> set s")
    case False
    then show ?thesis by (subst split_on_single) (simp add: takeWhile_absent)
  next
    case True
    define t where "t = tl (dropWhile (\<lambda>x. x \<noteq> c) s)"
    from True have s: "s = takeWhile (\<lambda>x. x \<noteq> c) s @ c # t"
      unfolding t_def
      by (metis (mono_tags, lifting) dropWhile_eq_Nil_conv hd_dropWhile list.collapse takeWhile_dropWhile_id)
    then have "length t < length s"
      by (metis add_Suc_right length_Cons length_append less_add_Suc2)
    then have IH: "last (split_on [c] t) = rev (takeWhile (\<lambda>x. x \<noteq> c) (rev t))"
      by (rule less)
    have "last (split_on [c] s) = last (split_on [c] t)"
      using True by (subst split_on_single) (simp add: t_def split_on_not_Nil)
    also have "\<dots> = rev (takeWhile (\<lambda>x. x \<noteq> c) (rev t))" by (rule IH)
    also have "takeWhile (\<lambda>x. x \<noteq> c) (rev t) = takeWhile (\<lambda>x. x \<noteq> c) (rev (u @ c # t))" for u
      by (simp add: takeWhile_append takeWhile_absent)
    finally show ?thesis using s by metis
  qed
qed

lemma split_on_contains:
  "str_contains sep s \<Longrightarrow> sep \<noteq> [] \<Longrightarrow> 2 \<le> length (split_on sep s)"
  unfolding str_contains_def
  by (subst split_on.simps) (auto simp: Suc_le_eq split_on_not_Nil)

lemma py_index_first: "xs \<noteq> [] \<Longrightarrow> py_index xs 0 = Inr (hd xs)"
  by (cases xs) (simp_all add: py_index_def)

lemma py_index_last: "xs \<noteq> [] \<Longrightarrow> py_index xs (- 1) = Inr (last xs)"
proof -
  assume "xs \<noteq> []"
  then have "1 \<le> length xs" by (cases xs) simp_all
  then have "nat (int (length xs) + - 1) = length xs - 1" by arith
  with \<open>xs \<noteq> []\<close> \<open>1 \<le> length xs\<close> show ?thesis
    by (simp add: py_index_def last_conv_nth)
qed

lemma py_index_nat: "i < length xs \<Longrightarrow> py_index xs (int i) = Inr (xs ! i)"
  by (simp add: py_index_def)

lemma entity_of_eq:
  "entity_of field = Inr (str_lower (str_strip (takeWhile (\<lambda>x. x \<noteq> CHR '':'') field)))"
  by (simp add: entity_of_def py_split_def bind_result_def py_index_first split_on_not_Nil
      hd_split_on_single)

lemma type_of_eq:
  "type_of field = Inr (str_upper (str_strip (rev (takeWhile (\<lambda>x. x \<noteq> CHR '':'') (rev field)))))"
  by (simp add: type_of_def py_split_def bind_result_def py_index_last split_on_not_Nil
      last_split_on_single)

lemma standardize_three:
  "standardize [f0, f1, f2] =
     Inr \<lparr>entity1 = str_lower (str_strip (takeWhile (\<lambda>x. x \<noteq> CHR '':'') f0)),
          type1 = str_upper (str_strip (rev (takeWhile (\<lambda>x. x \<noteq> CHR '':'') (rev f0)))),
          relation = str_lower (str_strip f1),
          entity2 = str_lower (str_strip (takeWhile (\<lambda>x. x \<noteq> CHR '':'') f2)),
          type2 = str_upper (str_strip (rev (takeWhile (\<lambda>x. x \<noteq> CHR '':'') (rev f2))))\<rparr>"
  by (simp add: standardize_def bind_result_def py_index_def entity_of_eq type_of_eq
      relation_of_def)

lemma length_three: "length xs = 3 \<Longrightarrow> \<exists>a b c. xs = [a, b, c]"
  by (cases xs; cases "tl xs"; cases "tl (tl xs)") auto

lemma standardize_total: "length split = 3 \<Longrightarrow> \<exists>p. standardize split = Inr p"
  using length_three standardize_three by metis

lemma format_loop_total: "\<exists>v w. format_loop rs allowed valid warns = Inr (v, w)"
proof (induction rs arbitrary: valid warns)
  case Nil
  show ?case by simp
next
  case (Cons r rs)
  show ?case
  proof (cases "length (split_on '','' r) = 3")
    case False
    then show ?thesis using Cons.IH by (simp add: py_split_def bind_result_def)
  next
    case True
    then obtain p where "standardize (split_on '','' r) = Inr p"
      using standardize_total by blast
    then show ?thesis using True Cons.IH by (simp add: py_split_def bind_result_def)
  qed
qed

lemma format_triplets_total: "\<exists>ts ws. format_triplets text allowed = Inr (ts, ws)"
proof -
  obtain v w where "format_loop (findall_groups text) allowed [] [] = Inr (v, w)"
    using format_loop_total by blast
  then show ?thesis by (simp add: format_triplets_def bind_result_def)
qed

lemma add_key_not_Nil: "add_key \<noteq> []"
  by (simp add: add_key_def)

lemma length_one: "length xs = Suc 0 \<Longrightarrow> \<exists>a. xs = [a]"
  by (cases xs) auto

lemma extract_new_triplet_total: "\<exists>d. extract_new_triplet generation allowed = Inr d"
proof (cases "str_contains add_key generation")
  case False
  then show ?thesis by (simp add: extract_new_triplet_def)
next
  case True
  then have "2 \<le> length (split_on add_key generation)"
    by (rule split_on_contains) (rule add_key_not_Nil)
  then have idx: "py_index (split_on add_key generation) 1 = Inr (split_on add_key generation ! 1)"
    by (simp add: py_index_def)
  define proposed where "proposed = split_on add_key generation ! 1"
  show ?thesis
  proof (cases "length (findall_groups proposed) = 1")
    case False
    then show ?thesis using True idx
      by (simp add: extract_new_triplet_def py_split_def add_key_not_Nil bind_result_def
          Let_def proposed_def)
  next
    case one: True
    then obtain t0 where t0: "findall_groups proposed = [t0]"
      using length_one by auto
    show ?thesis
    proof (cases "length (split_on '','' t0) = 3")
      case False
      then show ?thesis using True idx t0
        by (simp add: extract_new_triplet_def py_split_def add_key_not_Nil bind_result_def
            Let_def proposed_def py_index_def)
    next
      case three: True
      then obtain p where "standardize (split_on '','' t0) = Inr p"
        using standardize_total by blast
      then show ?thesis using True idx t0 three
        by (simp add: extract_new_triplet_def py_split_def add_key_not_Nil bind_result_def
            Let_def proposed_def py_index_def)
    qed
  qed
qed

lemma upper_char_colon: "upper_char c = CHR '':'' \<Longrightarrow> c = CHR '':''"
proof (rule ccontr)
  assume u: "upper_char c = CHR '':''" and c: "c \<noteq> CHR '':''"
  define n where "n = (of_char c :: nat)"
  from u c have r: "97 \<le> n \<and> n \<le> 122" and "char_of (n - 32) = CHR '':''"
    unfolding n_def by (auto simp: upper_char_def Let_def split: if_splits)
  then have "(of_char (char_of (n - 32) :: char) :: nat) = of_char (CHR '':'')"
    by simp
  then have m: "(n - 32) mod 256 = 58"
    by simp
  from r have "n - 32 < 256" by arith
  then have "(n - 32) mod 256 = n - 32" by (rule mod_less)
  with m r show False by arith
qed

lemma set_str_strip: "set (str_strip s) \<subseteq> set s"
proof -
  have "set (dropWhile isspace (rev (dropWhile isspace s))) \<subseteq> set (rev (dropWhile isspace s))"
    by (meson set_dropWhileD subsetI)
  also have "\<dots> \<subseteq> set s"
    by (auto dest: set_dropWhileD)
  finally show ?thesis by (simp add: str_strip_def)
qed

lemma type_tag_no_colon: "CHR '':'' \<notin> set (type_tag s)"
  unfolding type_tag_def by (auto dest: set_takeWhileD)

lemma normal_type_no_colon: "CHR '':'' \<notin> set (str_upper (str_strip (type_tag s)))"
proof
  assume "CHR '':'' \<in> set (str_upper (str_strip (type_tag s)))"
  then obtain c where "c \<in> set (str_strip (type_tag s))" and "upper_char c = CHR '':''"
    by (auto simp: str_upper_def)
  then have "CHR '':'' \<in> set (type_tag s)"
    using set_str_strip upper_char_colon by blast
  then show False using type_tag_no_colon by simp
qed

lemma type_tag_append: "CHR '':'' \<notin> set t \<Longrightarrow> type_tag (e @ CHR '':'' # t) = t"
  by (simp add: type_tag_def takeWhile_append takeWhile_absent)

lemma standardize_types:
  assumes "length split = 3" and "standardize split = Inr p"
  shows "type_tag (fst (render p)) = type1 p" and "type_tag (snd (snd (render p))) = type2 p"
proof -
  obtain f0 f1 f2 where "split = [f0, f1, f2]"
    using assms(1) length_three by blast
  with assms(2) have p: "type1 p = str_upper (str_strip (type_tag f0))"
    "type2 p = str_upper (str_strip (type_tag f2))"
    by (auto simp: standardize_three type_tag_def)
  show "type_tag (fst (render p)) = type1 p"
    using normal_type_no_colon[of f0] by (simp add: render_def p type_tag_append)
  show "type_tag (snd (snd (render p))) = type2 p"
    using normal_type_no_colon[of f2] by (simp add: render_def p type_tag_append)
qed

lemma format_loop_sets:
  "format_loop rs allowed valid warns = Inr (v, w) \<Longrightarrow>
     set v = set valid \<union> {render p |r p. r \<in> set rs \<and> accepted_group allowed r p}
     \<and> set warns \<subseteq> set w
     \<and> (\<forall>r\<in>set rs. \<forall>p. rejected_group allowed r p \<longrightarrow> type_warning allowed p \<in> set w)"
proof (induction rs arbitrary: valid warns)
  case Nil
  then show ?case by simp
next
  case (Cons r rs)
  show ?case
  proof (cases "length (split_on '','' r) = 3")
    case False
    with Cons.prems have "format_loop rs allowed valid
        (warns @ [''Cannot get a valid triplet from '' @ r]) = Inr (v, w)"
      by (simp add: py_split_def bind_result_def)
    from Cons.IH[OF this] False show ?thesis
      by (auto simp: accepted_group_def rejected_group_def)
  next
    case True
    then obtain p where p: "standardize (split_on '','' r) = Inr p"
      using standardize_total by blast
    consider (a) "type1 p \<notin> set allowed"
      | (b) "type1 p \<in> set allowed" "type2 p \<notin> set allowed"
      | (c) "type1 p \<in> set allowed" "type2 p \<in> set allowed"
      by blast
    then show ?thesis
    proof cases
      case a
      with Cons.prems True p have "format_loop rs allowed valid
          (warns @ [''Type '' @ type1 p @ '' is not in allowed types.'']) = Inr (v, w)"
        by (simp add: py_split_def bind_result_def)
      from Cons.IH[OF this] True p a show ?thesis
        by (auto simp: accepted_group_def rejected_group_def type_warning_def)
    next
      case b
      with Cons.prems True p have "format_loop rs allowed valid
          (warns @ [''Type '' @ type2 p @ '' is not in allowed types.'']) = Inr (v, w)"
        by (simp add: py_split_def bind_result_def)
      from Cons.IH[OF this] True p b show ?thesis
        by (auto simp: accepted_group_def rejected_group_def type_warning_def)
    next
      case c
      with Cons.prems True p have "format_loop rs allowed (valid @ [render p]) warns = Inr (v, w)"
        by (simp add: py_split_def bind_result_def)
      from Cons.IH[OF this] True p c show ?thesis
        by (auto simp: accepted_group_def rejected_group_def)
    qed
  qed
qed

lemma rejected_not_accepted:
  assumes "rejected_group allowed r p" and "accepted_group allowed r' p'"
  shows "render p \<noteq> render p'"
proof
  assume eq: "render p = render p'"
  have "type1 p = type1 p'" "type2 p = type2 p'"
    using assms standardize_types[of "split_on '','' r" p] standardize_types[of "split_on '','' r'" p'] eq
    by (auto simp: accepted_group_def rejected_group_def)
  with assms show False by (auto simp: accepted_group_def rejected_group_def)
qed

section \<open>Facts about the validation loop\<close>

lemma decision_from_messages_fail:
  "builder_chat_completion env (clock st) m = Inl e \<Longrightarrow>
     decision_from_messages env m st =
       (Inl e, st\<lparr>clock := Suc (clock st), trace := trace st @ [BuilderCompletion m]\<rparr>)"
  by (simp add: decision_from_messages_def)

lemma decision_from_messages_ok:
  "builder_chat_completion env (clock st) m = Inr g \<Longrightarrow>
   extract_new_triplet g (allowed_entity_types env) = Inr d \<Longrightarrow>
     decision_from_messages env m st =
       (Inr (d, g), st\<lparr>clock := Suc (clock st), trace := trace st @ [BuilderCompletion m]\<rparr>)"
  by (simp add: decision_from_messages_def)

lemma commit_eq:
  "commit env t passage st =
     st\<lparr>store := add_triplets env [t] passage (store st),
        trace := trace st @ [AddTriplets [t] passage]\<rparr>"
  by (cases t) (simp add: commit_def)

lemma step_first_fails:
  assumes "builder_chat_completion env (clock st) (first_prompt env st rel) = Inl e"
  shows "build_kg_step env rel passage st =
    (Inl e, st\<lparr>clock := Suc (clock st),
               trace := trace st @ [RetrieveSimilar rel, BuilderCompletion (first_prompt env st rel)]\<rparr>)"
  using assms
  by (simp add: build_kg_step_def validate_relation_def first_prompt_def similar_at_def
      decision_from_messages_def)

lemma step_first_noop:
  assumes "builder_chat_completion env (clock st) (first_prompt env st rel) = Inr g"
    and "extract_new_triplet g (allowed_entity_types env) = Inr NoOp"
  shows "build_kg_step env rel passage st =
    (Inr None, st\<lparr>clock := Suc (clock st),
               trace := trace st @ [RetrieveSimilar rel, BuilderCompletion (first_prompt env st rel)]\<rparr>)"
  using assms
  by (simp add: build_kg_step_def validate_relation_def first_prompt_def similar_at_def
      decision_from_messages_def)

lemma step_first_accepts:
  assumes "builder_chat_completion env (clock st) (first_prompt env st rel) = Inr g"
    and "extract_new_triplet g (allowed_entity_types env) = Inr (Triplet t)"
  shows "build_kg_step env rel passage st =
    (Inr (Some t), st\<lparr>clock := Suc (clock st),
               store := add_triplets env [t] passage (store st),
               trace := trace st @ [RetrieveSimilar rel, BuilderCompletion (first_prompt env st rel),
                                    AddTriplets [t] passage]\<rparr>)"
  using assms
  by (simp add: build_kg_step_def validate_relation_def first_prompt_def similar_at_def
      decision_from_messages_def commit_eq)

lemma step_retry_fails:
  assumes "builder_chat_completion env (clock st) (first_prompt env st rel) = Inr g"
    and "extract_new_triplet g (allowed_entity_types env) = Inr (ErrorSignal err)"
    and "builder_chat_completion env (Suc (clock st)) (retry_prompt env st rel g err) = Inl e"
  shows "build_kg_step env rel passage st =
    (Inl e, st\<lparr>clock := Suc (Suc (clock st)),
               trace := trace st @ [RetrieveSimilar rel, BuilderCompletion (first_prompt env st rel),
                                    BuilderCompletion (retry_prompt env st rel g err)]\<rparr>)"
  using assms
  by (simp add: build_kg_step_def validate_relation_def retry_validation_def first_prompt_def
      retry_prompt_def similar_at_def decision_from_messages_def Let_def)

lemma step_retry_accepts:
  assumes "builder_chat_completion env (clock st) (first_prompt env st rel) = Inr g"
    and "extract_new_triplet g (allowed_entity_types env) = Inr (ErrorSignal err)"
    and "builder_chat_completion env (Suc (clock st)) (retry_prompt env st rel g err) = Inr g2"
    and "extract_new_triplet g2 (allowed_entity_types env) = Inr (Triplet t)"
  shows "build_kg_step env rel passage st =
    (Inr (Some t), st\<lparr>clock := Suc (Suc (clock st)),
               store := add_triplets env [t] passage (store st),
               trace := trace st @ [RetrieveSimilar rel, BuilderCompletion (first_prompt env st rel),
                                    BuilderCompletion (retry_prompt env st rel g err),
                                    AddTriplets [t] passage]\<rparr>)"
  using assms
  by (simp add: build_kg_step_def validate_relation_def retry_validation_def first_prompt_def
      retry_prompt_def similar_at_def decision_from_messages_def Let_def commit_eq)

lemma step_retry_discards:
  assumes "builder_chat_completion env (clock st) (first_prompt env st rel) = Inr g"
    and "extract_new_triplet g (allowed_entity_types env) = Inr (ErrorSignal err)"
    and "builder_chat_completion env (Suc (clock st)) (retry_prompt env st rel g err) = Inr g2"
    and "extract_new_triplet g2 (allowed_entity_types env) = Inr d2"
    and "\<forall>t. d2 \<noteq> Triplet t"
  shows "build_kg_step env rel passage st =
    (Inr None, st\<lparr>clock := Suc (Suc (clock st)),
               trace := trace st @ [RetrieveSimilar rel, BuilderCompletion (first_prompt env st rel),
                                    BuilderCompletion (retry_prompt env st rel g err)]\<rparr>)"
  using assms
  by (cases d2)
    (simp_all add: build_kg_step_def validate_relation_def retry_validation_def first_prompt_def
      retry_prompt_def similar_at_def decision_from_messages_def Let_def)


lemma commits_append: "commits (xs @ ys) = commits xs @ commits ys"
  by (induction xs rule: commits.induct) auto

lemma extract_new_triplet_group:
  assumes "decision_group g t0"
  shows "extract_new_triplet g allowed =
    (if length (split_on '','' t0) \<noteq> 3 then Inr (ErrorSignal arity_message)
     else bind_result (standardize (split_on '','' t0)) (\<lambda>p.
            if type1 p \<notin> set allowed \<or> type2 p \<notin> set allowed
            then Inr (ErrorSignal (types_message allowed))
            else Inr (Triplet (render p))))"
proof -
  from assms have c: "str_contains add_key g" by (simp add: decision_group_def)
  then have "2 \<le> length (split_on add_key g)"
    by (rule split_on_contains) (rule add_key_not_Nil)
  then have idx: "py_index (split_on add_key g) 1 = Inr (split_on add_key g ! 1)"
    by (simp add: py_index_def)
  from assms c idx show ?thesis
    by (simp add: extract_new_triplet_def decision_group_def py_split_def add_key_not_Nil
        bind_result_def Let_def py_index_def)
qed

lemma extract_new_triplet_rejects:
  assumes "decision_group g t0" and "rejected_group allowed t0 p"
  shows "extract_new_triplet g allowed = Inr (ErrorSignal (types_message allowed))"
  using assms(2) unfolding extract_new_triplet_group[OF assms(1)]
  by (auto simp: rejected_group_def bind_result_def)

lemma extract_new_triplet_Triplet:
  assumes "extract_new_triplet g allowed = Inr (Triplet t)"
  shows "\<exists>t0 p. decision_group g t0 \<and> accepted_group allowed t0 p \<and> t = render p"
proof -
  from assms have c: "str_contains add_key g"
    by (auto simp: extract_new_triplet_def split: if_splits)
  then have "2 \<le> length (split_on add_key g)"
    by (rule split_on_contains) (rule add_key_not_Nil)
  then have idx: "py_index (split_on add_key g) 1 = Inr (split_on add_key g ! 1)"
    by (simp add: py_index_def)
  define proposed where "proposed = split_on add_key g ! 1"
  from assms c idx have nd: "\<not> str_contains discard_triplet_value proposed"
    and one: "length (findall_groups proposed) = 1"
    by (auto simp: extract_new_triplet_def py_split_def add_key_not_Nil bind_result_def
        Let_def proposed_def split: if_splits)
  then obtain t0 where t0: "findall_groups proposed = [t0]"
    using length_one by auto
  have dg: "decision_group g t0"
    using c nd t0 by (simp add: decision_group_def proposed_def)
  from assms have three: "length (split_on '','' t0) = 3"
    unfolding extract_new_triplet_group[OF dg] by (auto split: if_splits)
  then obtain p where p: "standardize (split_on '','' t0) = Inr p"
    using standardize_total by blast
  from assms three p have "accepted_group allowed t0 p \<and> t = render p"
    unfolding extract_new_triplet_group[OF dg]
    by (auto simp: bind_result_def accepted_group_def split: if_splits)
  with dg show ?thesis by blast
qed

lemma accepted_typed: "accepted_group allowed r p \<Longrightarrow> typed_triplet allowed (render p)"
  using standardize_types[of "split_on '','' r" p]
  by (auto simp: accepted_group_def typed_triplet_def split: prod.splits)

lemma extract_new_triplet_typed:
  "extract_new_triplet g allowed = Inr (Triplet t) \<Longrightarrow> typed_triplet allowed t"
  using extract_new_triplet_Triplet accepted_typed by blast

text \<open>What one turn of the loop of \<^verbatim>\<open>build_kg\<close> adds to the trace.\<close>

lemma build_kg_step_events:
  assumes "build_kg_step env rel passage st = (r, st')"
  shows "\<exists>evs. trace st' = trace st @ evs \<and> (\<forall>e\<in>set evs. validation_event e)
     \<and> (case r of
          Inr (Some t) \<Rightarrow> commits evs = [([t], passage)] \<and> typed_triplet (allowed_entity_types env) t
        | _ \<Rightarrow> commits evs = [])"
proof (cases "builder_chat_completion env (clock st) (first_prompt env st rel)")
  case (Inl e)
  from step_first_fails[OF Inl, of passage] assms show ?thesis by auto
next
  case (Inr g)
  obtain d where d: "extract_new_triplet g (allowed_entity_types env) = Inr d"
    using extract_new_triplet_total by blast
  show ?thesis
  proof (cases d)
    case NoOp
    from step_first_noop[OF Inr d[unfolded NoOp], of passage] assms show ?thesis by auto
  next
    case (Triplet t)
    from step_first_accepts[OF Inr d[unfolded Triplet], of passage] assms
      extract_new_triplet_typed[OF d[unfolded Triplet]]
    show ?thesis by auto
  next
    case (ErrorSignal err)
    note d1 = d[unfolded ErrorSignal]
    show ?thesis
    proof (cases "builder_chat_completion env (Suc (clock st)) (retry_prompt env st rel g err)")
      case (Inl e)
      from step_retry_fails[OF Inr d1 Inl, of passage] assms show ?thesis by auto
    next
      case g2: (Inr g2)
      obtain d2 where d2: "extract_new_triplet g2 (allowed_entity_types env) = Inr d2"
        using extract_new_triplet_total by blast
      show ?thesis
      proof (cases "\<exists>t. d2 = Triplet t")
        case True
        then obtain t where t: "d2 = Triplet t" by blast
        from step_retry_accepts[OF Inr d1 g2 d2[unfolded t], of passage] assms
          extract_new_triplet_typed[OF d2[unfolded t]]
        show ?thesis by auto
      next
        case False
        then have "\<forall>t. d2 \<noteq> Triplet t" by blast
        from step_retry_discards[OF Inr d1 g2 d2 this, of passage] assms show ?thesis by auto
      qed
    qed
  qed
qed

lemma build_kg_loop_events:
  assumes "build_kg_loop env rels passage added st = (r, st')"
  shows "\<exists>evs. trace st' = trace st @ evs \<and> (\<forall>e\<in>set evs. validation_event e)
     \<and> (\<forall>(ts, p)\<in>set (commits evs). p = passage \<and> (\<forall>t\<in>set ts. typed_triplet (allowed_entity_types env) t))
     \<and> (\<forall>added'. r = Inr added' \<longrightarrow>
           (\<exists>new. added' = added @ new \<and> commits evs = map (\<lambda>t. ([t], passage)) new))"
  using assms
proof (induction rels arbitrary: added st)
  case Nil
  then show ?case by auto
next
  case (Cons rel rels)
  obtain r1 st1 where s1: "build_kg_step env rel passage st = (r1, st1)"
    by (cases "build_kg_step env rel passage st")
  from build_kg_step_events[OF s1] obtain evs1 where
    e1: "trace st1 = trace st @ evs1" "\<forall>e\<in>set evs1. validation_event e"
    and c1: "case r1 of
          Inr (Some t) \<Rightarrow> commits evs1 = [([t], passage)] \<and> typed_triplet (allowed_entity_types env) t
        | _ \<Rightarrow> commits evs1 = []"
    by blast
  show ?case
  proof (cases r1)
    case (Inl e)
    with Cons.prems s1 have "r = Inl e" "st' = st1" by auto
    with e1 c1 Inl show ?thesis by auto
  next
    case (Inr o1)
    show ?thesis
    proof (cases o1)
      case None
      with Cons.prems s1 Inr have "build_kg_loop env rels passage added st1 = (r, st')"
        by simp
      from Cons.IH[OF this] obtain evs where
        "trace st' = trace st1 @ evs" "\<forall>e\<in>set evs. validation_event e"
        "\<forall>(ts, p)\<in>set (commits evs). p = passage \<and> (\<forall>t\<in>set ts. typed_triplet (allowed_entity_types env) t)"
        "\<forall>added'. r = Inr added' \<longrightarrow>
           (\<exists>new. added' = added @ new \<and> commits evs = map (\<lambda>t. ([t], passage)) new)"
        by blast
      moreover have "commits (evs1 @ evs) = commits evs"
        using c1 Inr None by (simp add: commits_append)
      ultimately show ?thesis using e1
        by (intro exI[of _ "evs1 @ evs"]) auto
    next
      case (Some t)
      with Cons.prems s1 Inr have "build_kg_loop env rels passage (added @ [t]) st1 = (r, st')"
        by simp
      from Cons.IH[OF this] obtain evs where
        ev: "trace st' = trace st1 @ evs" "\<forall>e\<in>set evs. validation_event e"
        "\<forall>(ts, p)\<in>set (commits evs). p = passage \<and> (\<forall>t\<in>set ts. typed_triplet (allowed_entity_types env) t)"
        and ad: "\<forall>added'. r = Inr added' \<longrightarrow>
           (\<exists>new. added' = (added @ [t]) @ new \<and> commits evs = map (\<lambda>t. ([t], passage)) new)"
        by blast
      have cm: "commits (evs1 @ evs) = ([t], passage) # commits evs"
        and ty: "typed_triplet (allowed_entity_types env) t"
        using c1 Inr Some by (simp_all add: commits_append)
      have "\<forall>added'. r = Inr added' \<longrightarrow>
           (\<exists>new. added' = added @ new \<and> commits (evs1 @ evs) = map (\<lambda>t. ([t], passage)) new)"
      proof (intro allI impI)
        fix added' assume "r = Inr added'"
        with ad obtain new where "added' = (added @ [t]) @ new"
          "commits evs = map (\<lambda>t. ([t], passage)) new" by blast
        then show "\<exists>new. added' = added @ new \<and> commits (evs1 @ evs) = map (\<lambda>t. ([t], passage)) new"
          by (intro exI[of _ "t # new"]) (simp add: cm)
      qed
      with ev e1 cm ty show ?thesis
        by (intro exI[of _ "evs1 @ evs"]) auto
    qed
  qed
qed

lemma build_kg_loop_step_fails:
  "build_kg_step env rel passage st = (Inl e, st') \<Longrightarrow>
     build_kg_loop env (rel # rels) passage added st = (Inl e, st')"
  by simp

lemma build_loop_fails:
  assumes "fst (build_kg env proposed c st) = Inl e" and "py_index ex (int i) = Inr proposed"
  shows "fst (build_loop env ((i, c) # ics) ex st) = Inl e"
  using assms by (cases "build_kg env proposed c st") auto

lemma workflow_fails:
  assumes "fst (extract_loop env (split_text env text) [] st) = Inr ex"
    and "fst (build_loop env (enumerate 0 (split_text env text)) ex
               (clear_caches d ExtractorClearCaches
                  (snd (extract_loop env (split_text env text) [] st)))) = Inl e"
  shows "fst (workflow env text d st) = Inl e"
  using assms
  by (cases "extract_loop env (split_text env text) [] st")
     (auto simp: workflow_def Let_def split: prod.splits sum.splits)

lemma retry_attempts_exhausted:
  "(\<forall>i<k. body (a + i) = None) \<Longrightarrow> retry_attempts k a body = Inl RetryError"
proof (induction k arbitrary: a)
  case 0
  show ?case by simp
next
  case (Suc k)
  from Suc.prems have "body (a + 0) = None" by blast
  then have h: "body a = None" by simp
  have "\<forall>i<k. body (Suc a + i) = None"
  proof (intro allI impI)
    fix i assume "i < k"
    then have "Suc i < Suc k" by simp
    with Suc.prems have "body (a + Suc i) = None" by blast
    then show "body (Suc a + i) = None" by simp
  qed
  then have "retry_attempts k (Suc a) body = Inl RetryError" by (rule Suc.IH)
  with h show ?case by simp
qed

lemma gemini_exhausted:
  assumes "\<forall>i<5. send n (1 + i) (snd (last messages)) = None"
  shows "gemini_chat_completion send n messages = Inl RetryError"
proof (cases "messages = []")
  case True
  then show ?thesis
    unfolding gemini_chat_completion_def
    by (intro retry_attempts_exhausted) (simp add: py_index_def)
next
  case False
  then have "py_index messages (- 1) = Inr (last messages)" by (rule py_index_last)
  with assms show ?thesis
    unfolding gemini_chat_completion_def
    by (intro retry_attempts_exhausted) simp
qed

section \<open>Facts about the workflow\<close>

lemma extract_from_passage_result:
  assumes "extract_from_passage env chunk st = (r, st')"
  shows "clock st' = Suc (clock st)" and "store st' = store st"
    and "\<exists>evs. trace st' = trace st @ evs \<and> (\<forall>e\<in>set evs. extraction_event e)"
    and "r = Inr ts \<Longrightarrow> \<exists>decoded ws.
           extractor_chat_completion env (clock st)
             (extractor_get_messages (extractor_system_prompt env) chunk (allowed_entity_types env))
             = Inr decoded
           \<and> format_triplets decoded (allowed_entity_types env) = Inr (ts, ws)"
  using assms
  by (auto simp: extract_from_passage_def Let_def split: sum.splits prod.splits)

lemma extract_loop_result:
  assumes "extract_loop env chunks acc st = (r, st1)"
  shows "store st1 = store st
    \<and> (\<exists>evs. trace st1 = trace st @ evs \<and> (\<forall>e\<in>set evs. extraction_event e))
    \<and> (\<forall>ex. r = Inr ex \<longrightarrow>
          length ex = length acc + length chunks \<and> take (length acc) ex = acc
          \<and> (\<forall>i<length chunks. \<exists>decoded ws.
                extractor_chat_completion env (clock st + i)
                  (extractor_get_messages (extractor_system_prompt env) (chunks ! i)
                     (allowed_entity_types env)) = Inr decoded
                \<and> format_triplets decoded (allowed_entity_types env)
                    = Inr (ex ! (length acc + i), ws)))"
  using assms
proof (induction chunks arbitrary: acc st)
  case Nil
  then show ?case by auto
next
  case (Cons chunk chunks)
  obtain r0 st0 where s0: "extract_from_passage env chunk st = (r0, st0)"
    by (cases "extract_from_passage env chunk st")
  note f = extract_from_passage_result[OF s0]
  show ?case
  proof (cases r0)
    case (Inl e)
    with Cons.prems s0 have "r = Inl e" "st1 = st0" by auto
    with f show ?thesis by auto
  next
    case (Inr ts)
    with Cons.prems s0 have run: "extract_loop env chunks (acc @ [ts]) st0 = (r, st1)"
      by simp
    note IH = Cons.IH[OF run]
    from f(4)[OF Inr] obtain decoded ws where
      d: "extractor_chat_completion env (clock st)
             (extractor_get_messages (extractor_system_prompt env) chunk (allowed_entity_types env))
             = Inr decoded"
      "format_triplets decoded (allowed_entity_types env) = Inr (ts, ws)"
      by blast
    have "store st1 = store st" using IH f(2) by simp
    moreover have "\<exists>evs. trace st1 = trace st @ evs \<and> (\<forall>e\<in>set evs. extraction_event e)"
    proof -
      from f(3) obtain evs0 where "trace st0 = trace st @ evs0" "\<forall>e\<in>set evs0. extraction_event e"
        by blast
      moreover from IH obtain evs where "trace st1 = trace st0 @ evs" "\<forall>e\<in>set evs. extraction_event e"
        by blast
      ultimately show ?thesis by (intro exI[of _ "evs0 @ evs"]) auto
    qed
    moreover have "\<forall>ex. r = Inr ex \<longrightarrow>
          length ex = length acc + length (chunk # chunks) \<and> take (length acc) ex = acc
          \<and> (\<forall>i<length (chunk # chunks). \<exists>decoded ws.
                extractor_chat_completion env (clock st + i)
                  (extractor_get_messages (extractor_system_prompt env) ((chunk # chunks) ! i)
                     (allowed_entity_types env)) = Inr decoded
                \<and> format_triplets decoded (allowed_entity_types env)
                    = Inr (ex ! (length acc + i), ws))"
    proof (intro allI impI)
      fix ex assume ex: "r = Inr ex"
      with IH have len: "length ex = length (acc @ [ts]) + length chunks"
        and tk: "take (length (acc @ [ts])) ex = acc @ [ts]"
        and rest: "\<forall>i<length chunks. \<exists>decoded ws.
                extractor_chat_completion env (clock st0 + i)
                  (extractor_get_messages (extractor_system_prompt env) (chunks ! i)
                     (allowed_entity_types env)) = Inr decoded
                \<and> format_triplets decoded (allowed_entity_types env)
                    = Inr (ex ! (length (acc @ [ts]) + i), ws)"
        by blast+
      from tk have tk1: "take (Suc (length acc)) ex = acc @ [ts]" by simp
      have "take (length acc) ex = take (length acc) (take (Suc (length acc)) ex)"
        by simp
      also have "\<dots> = acc" unfolding tk1 by simp
      finally have tk0: "take (length acc) ex = acc" .
      have "ex ! length acc = take (Suc (length acc)) ex ! length acc"
        by simp
      also have "\<dots> = ts" unfolding tk1 by simp
      finally have at: "ex ! length acc = ts" .
      have "\<exists>decoded ws.
                extractor_chat_completion env (clock st + i)
                  (extractor_get_messages (extractor_system_prompt env) ((chunk # chunks) ! i)
                     (allowed_entity_types env)) = Inr decoded
                \<and> format_triplets decoded (allowed_entity_types env)
                    = Inr (ex ! (length acc + i), ws)" if "i < length (chunk # chunks)" for i
      proof (cases i)
        case 0
        with d at show ?thesis by auto
      next
        case (Suc j)
        with that have "j < length chunks" by simp
        with rest obtain decoded ws where
          "extractor_chat_completion env (clock st0 + j)
                  (extractor_get_messages (extractor_system_prompt env) (chunks ! j)
                     (allowed_entity_types env)) = Inr decoded"
          "format_triplets decoded (allowed_entity_types env)
                    = Inr (ex ! (length (acc @ [ts]) + j), ws)"
          by blast
        then show ?thesis using Suc f(1) by auto
      qed
      with len tk0 show "length ex = length acc + length (chunk # chunks) \<and> take (length acc) ex = acc
          \<and> (\<forall>i<length (chunk # chunks). \<exists>decoded ws.
                extractor_chat_completion env (clock st + i)
                  (extractor_get_messages (extractor_system_prompt env) ((chunk # chunks) ! i)
                     (allowed_entity_types env)) = Inr decoded
                \<and> format_triplets decoded (allowed_entity_types env)
                    = Inr (ex ! (length acc + i), ws))"
        by simp
    qed
    ultimately show ?thesis by blast
  qed
qed

lemma build_loop_enumerate:
  "n + length chunks \<le> length ex \<Longrightarrow>
     build_loop env (enumerate n chunks) ex st = validate_in_order env (zip (drop n ex) chunks) st"
proof (induction chunks arbitrary: n st)
  case Nil
  show ?case by simp
next
  case (Cons c chunks)
  then have n: "n < length ex" and le: "Suc n + length chunks \<le> length ex" by simp_all
  have idx: "py_index ex (int n) = Inr (ex ! n)" using n by (rule py_index_nat)
  have dr: "drop n ex = ex ! n # drop (Suc n) ex" using n by (rule Cons_nth_drop_Suc[symmetric])
  show ?case
    by (simp add: idx dr Cons.IH[OF le] split: prod.splits sum.splits)
qed

lemma build_kg_events:
  assumes "build_kg env rels passage st = (r, st')"
  shows "\<exists>evs. trace st' = trace st @ evs \<and> (\<forall>e\<in>set evs. validation_event e)"
  using build_kg_loop_events[of env rels passage "[]" st r st'] assms
  unfolding build_kg_def by blast

lemma validate_in_order_events:
  assumes "validate_in_order env pairs st = (r, st')"
  shows "\<exists>evs. trace st' = trace st @ evs \<and> (\<forall>e\<in>set evs. validation_event e)"
  using assms
proof (induction pairs arbitrary: st)
  case Nil
  then show ?case by auto
next
  case (Cons pr pairs)
  obtain candidates passage where pr: "pr = (candidates, passage)" by (cases pr)
  obtain r0 st0 where b: "build_kg env candidates passage st = (r0, st0)"
    by (cases "build_kg env candidates passage st")
  from build_kg_events[OF b] obtain evs0 where
    e0: "trace st0 = trace st @ evs0" "\<forall>e\<in>set evs0. validation_event e" by blast
  show ?case
  proof (cases r0)
    case (Inl e)
    with Cons.prems pr b have "st' = st0" by simp
    with e0 show ?thesis by blast
  next
    case (Inr added)
    with Cons.prems pr b have "validate_in_order env pairs st0 = (r, st')" by simp
    from Cons.IH[OF this] obtain evs where
      "trace st' = trace st0 @ evs" "\<forall>e\<in>set evs. validation_event e" by blast
    with e0 show ?thesis by (intro exI[of _ "evs0 @ evs"]) auto
  qed
qed

lemma validation_not_extraction: "validation_event e \<Longrightarrow> \<not> extraction_event e"
  by (cases e) simp_all

section \<open>The claims about the two parsers\<close>

text \<open>
  Claim C10. Both parsers return for every text and every list of allowed types:
  \<^verbatim>\<open>format_triplets\<close> a list of triplets (with its warnings), \<^verbatim>\<open>extract_new_triplet\<close> a
  triplet, an error text or \<^verbatim>\<open>None\<close>. No indexing of a list raises \<^verbatim>\<open>IndexError\<close> and no
  split raises \<^verbatim>\<open>ValueError\<close>: the piece behind the key is read only when the key occurs
  in the text, the single group only when exactly one was found, and the three fields only
  when the group has three.
\<close>

theorem parsers_total:
  "(\<exists>ts ws. format_triplets text allowed = Inr (ts, ws))
   \<and> (\<exists>d. extract_new_triplet generation allowed = Inr d)"
  using format_triplets_total extract_new_triplet_total by blast

theorem parsers_total_witness:
  "(\<exists>ts ws. format_triplets ''(a:X, r, b:Y) (a, b)'' [''X''] = Inr (ts, ws))
   \<and> (\<exists>d. extract_new_triplet ''Add triplet: (a:X, r, b:X)'' [''X''] = Inr d)"
  by (rule parsers_total)

text \<open>
  Claim C4. The text \<^verbatim>\<open>(alex:PERSON, graduated from, columbia university:LOCATION)\<close> with
  the allowed types \<^verbatim>\<open>PERSON\<close> and \<^verbatim>\<open>LOCATION\<close> gives exactly one triplet and no warning.
  Its subject has the name \<^verbatim>\<open>alex\<close> and the type \<^verbatim>\<open>PERSON\<close>, its relation is
  \<^verbatim>\<open>graduated from\<close>, its object has the name \<^verbatim>\<open>columbia university\<close> and the type
  \<^verbatim>\<open>LOCATION\<close>; the triplet returned carries each entity as the text \<^verbatim>\<open>name:TYPE\<close>.
\<close>

theorem parse_example:
  "format_triplets ''(alex:PERSON, graduated from, columbia university:LOCATION)''
     [''PERSON'', ''LOCATION'']
   = Inr ([(''alex:PERSON'', ''graduated from'', ''columbia university:LOCATION'')], [])
   \<and> standardize (split_on '','' ''alex:PERSON, graduated from, columbia university:LOCATION'')
   = Inr \<lparr>entity1 = ''alex'', type1 = ''PERSON'', relation = ''graduated from'',
          entity2 = ''columbia university'', type2 = ''LOCATION''\<rparr>"
  by code_simp

text \<open>
  Claim C3, as stated, fails: the name of an entity is not the text before the last colon
  of its field. For the field \<^verbatim>\<open>a:b:PERSON\<close> the parsed name is \<^verbatim>\<open>a\<close>, not \<^verbatim>\<open>a:b\<close>; the
  type is \<^verbatim>\<open>PERSON\<close>.
\<close>

theorem name_before_last_colon_counterexample:
  "standardize [''a:b:PERSON'', '' knows'', '' c:PERSON'']
   = Inr \<lparr>entity1 = ''a'', type1 = ''PERSON'', relation = ''knows'',
          entity2 = ''c'', type2 = ''PERSON''\<rparr>
   \<and> entity_of ''a:b:PERSON'' \<noteq> Inr ''a:b''"
  by code_simp

text \<open>
  Claim C3, amended. In a group of three fields, the name of the subject and of the object
  is the text of field 1 and 3 before its first colon, stripped and in lower case; the
  type is the text behind its last colon, stripped and in upper case; the relation is
  field 2, stripped and in lower case. Text between the first and the last colon of an
  entity field is dropped, and a field without a colon is name and type at once.
\<close>

theorem standardize_fields:
  "standardize [f0, f1, f2] =
     Inr \<lparr>entity1 = str_lower (str_strip (takeWhile (\<lambda>x. x \<noteq> CHR '':'') f0)),
          type1 = str_upper (str_strip (rev (takeWhile (\<lambda>x. x \<noteq> CHR '':'') (rev f0)))),
          relation = str_lower (str_strip f1),
          entity2 = str_lower (str_strip (takeWhile (\<lambda>x. x \<noteq> CHR '':'') f2)),
          type2 = str_upper (str_strip (rev (takeWhile (\<lambda>x. x \<noteq> CHR '':'') (rev f2))))\<rparr>"
  by (rule standardize_three)

text \<open>
  Claim C9. In the list \<^verbatim>\<open>format_triplets\<close> returns no triplet occurs twice. The list
  holds exactly the triplets of the groups of three fields whose two types are both in
  the list of allowed types, each with both its entities. A group of three fields with
  the type of its subject or of its object outside the list contributes nothing: its
  triplet is not in the result, and the warning naming the offending type has been issued.
\<close>

theorem format_triplets_whitelist:
  assumes "format_triplets text allowed = Inr (ts, ws)"
  shows "distinct ts
    \<and> set ts = {render p |r p. r \<in> set (findall_groups text) \<and> accepted_group allowed r p}
    \<and> (\<forall>r\<in>set (findall_groups text). \<forall>p. rejected_group allowed r p \<longrightarrow>
          render p \<notin> set ts \<and> type_warning allowed p \<in> set ws)"
proof -
  from assms obtain v where loop: "format_loop (findall_groups text) allowed [] [] = Inr (v, ws)"
    and ts: "ts = remdups v"
    by (auto simp: format_triplets_def bind_result_def split: sum.splits)
  note sets = format_loop_sets[OF loop]
  have "distinct ts" by (simp add: ts)
  moreover have s: "set ts = {render p |r p. r \<in> set (findall_groups text) \<and> accepted_group allowed r p}"
    using sets by (simp add: ts)
  moreover have "render p \<notin> set ts" if "rejected_group allowed r p" for r p
    using that rejected_not_accepted unfolding s by blast
  ultimately show ?thesis using sets by blast
qed

theorem format_triplets_whitelist_witness:
  "format_triplets ''(a:X, r, b:Y) (a:X, r, b:X) (a:X, r, b:X)'' [''X'']
     = Inr ([(''a:X'', ''r'', ''b:X'')], [''Type Y is not in allowed types.''])
   \<and> distinct [(''a:X'', ''r'', ''b:X'')]
   \<and> (''a:X'', ''r'', ''b:Y'') \<notin> set [(''a:X'', ''r'', ''b:X'')]
   \<and> ''Type Y is not in allowed types.'' \<in> set [''Type Y is not in allowed types.'']"
proof -
  define p where "p = \<lparr>entity1 = ''a'', type1 = ''X'', relation = ''r'',
                        entity2 = ''b'', type2 = ''Y''\<rparr>"
  have ev: "format_triplets ''(a:X, r, b:Y) (a:X, r, b:X) (a:X, r, b:X)'' [''X'']
     = Inr ([(''a:X'', ''r'', ''b:X'')], [''Type Y is not in allowed types.''])"
    by code_simp
  have g: "''a:X, r, b:Y'' \<in> set (findall_groups ''(a:X, r, b:Y) (a:X, r, b:X) (a:X, r, b:X)'')"
    by code_simp
  have rj: "rejected_group [''X''] ''a:X, r, b:Y'' p"
    unfolding p_def by code_simp
  have r: "render p = (''a:X'', ''r'', ''b:Y'')"
    unfolding p_def by code_simp
  have w: "type_warning [''X''] p = ''Type Y is not in allowed types.''"
    unfolding p_def by code_simp
  note inst = format_triplets_whitelist[OF ev]
  from inst have d: "distinct [(''a:X'', ''r'', ''b:X'')]"
    by (rule conjunct1)
  from inst have "\<forall>r\<in>set (findall_groups ''(a:X, r, b:Y) (a:X, r, b:X) (a:X, r, b:X)'').
      \<forall>p. rejected_group [''X''] r p \<longrightarrow>
          render p \<notin> set [(''a:X'', ''r'', ''b:X'')]
          \<and> type_warning [''X''] p \<in> set [''Type Y is not in allowed types.'']"
    by (rule conjunct2[THEN conjunct2])
  then have "\<forall>q. rejected_group [''X''] ''a:X, r, b:Y'' q \<longrightarrow>
          render q \<notin> set [(''a:X'', ''r'', ''b:X'')]
          \<and> type_warning [''X''] q \<in> set [''Type Y is not in allowed types.'']"
    using g by (rule bspec)
  then have "rejected_group [''X''] ''a:X, r, b:Y'' p \<longrightarrow>
          render p \<notin> set [(''a:X'', ''r'', ''b:X'')]
          \<and> type_warning [''X''] p \<in> set [''Type Y is not in allowed types.'']"
    by (rule spec)
  then have "render p \<notin> set [(''a:X'', ''r'', ''b:X'')]
      \<and> type_warning [''X''] p \<in> set [''Type Y is not in allowed types.'']"
    using rj by (rule mp)
  then have "(''a:X'', ''r'', ''b:Y'') \<notin> set [(''a:X'', ''r'', ''b:X'')]
      \<and> ''Type Y is not in allowed types.'' \<in> set [''Type Y is not in allowed types.'']"
    unfolding r w .
  with ev d show ?thesis by (intro conjI) (erule conjunct1 conjunct2 | assumption)+
qed

section \<open>The claims about the validation stage\<close>

text \<open>
  Claim C1, as stated, fails. The engine answers \<^verbatim>\<open>Add triplet: (:PERSON, , :PERSON)\<close>:
  both names and the relation are empty after normalisation, the decision is accepted,
  \<^verbatim>\<open>add_triplets\<close> is called for it and it is in the store and in the list returned.
\<close>

theorem degenerate_triplet_committed:
  "standardize (split_on '','' '':PERSON, , :PERSON'')
     = Inr \<lparr>entity1 = [], type1 = ''PERSON'', relation = [], entity2 = [], type2 = ''PERSON''\<rparr>
   \<and> fst (build_kg degenerate_env [(''x:PERSON'', ''r'', ''y:PERSON'')] ''p'' (start 0))
     = Inr [('':PERSON'', [], '':PERSON'')]
   \<and> store (snd (build_kg degenerate_env [(''x:PERSON'', ''r'', ''y:PERSON'')] ''p'' (start 0)))
     = [(('':PERSON'', [], '':PERSON''), ''p'')]
   \<and> commits (trace (snd (build_kg degenerate_env [(''x:PERSON'', ''r'', ''y:PERSON'')] ''p''
        (start 0))))
     = [([('':PERSON'', [], '':PERSON'')], ''p'')]"
  by code_simp

text \<open>
  Claim C1, amended. An accepted decision is a tuple of three strings, so the test
  \<^verbatim>\<open>len(decision) > 0\<close> holds for every one: the commit step always calls
  \<^verbatim>\<open>add_triplets\<close>. The additions \<^verbatim>\<open>build_kg\<close> makes to the store are, in order, exactly
  the triplets of the list it returns, each added alone with the passage; no accepted
  triplet is left out, whatever its fields.
\<close>

theorem accepted_always_committed:
  "commit env t passage st =
     st\<lparr>store := add_triplets env [t] passage (store st),
        trace := trace st @ [AddTriplets [t] passage]\<rparr>
   \<and> (fst (build_kg env rels passage st) = Inr added \<longrightarrow>
        (\<exists>evs. trace (snd (build_kg env rels passage st)) = trace st @ evs
           \<and> commits evs = map (\<lambda>t. ([t], passage)) added))"
proof (intro conjI impI)
  show "commit env t passage st =
     st\<lparr>store := add_triplets env [t] passage (store st),
        trace := trace st @ [AddTriplets [t] passage]\<rparr>"
    by (rule commit_eq)
next
  assume a: "fst (build_kg env rels passage st) = Inr added"
  obtain r st' where run: "build_kg_loop env rels passage [] st = (r, st')"
    by (cases "build_kg_loop env rels passage [] st")
  with a have r: "r = Inr added" by (simp add: build_kg_def)
  from build_kg_loop_events[OF run] r obtain evs new where
    "trace st' = trace st @ evs" "added = [] @ new" "commits evs = map (\<lambda>t. ([t], passage)) new"
    by blast
  then show "\<exists>evs. trace (snd (build_kg env rels passage st)) = trace st @ evs
           \<and> commits evs = map (\<lambda>t. ([t], passage)) added"
    using run by (auto simp: build_kg_def)
qed

theorem accepted_always_committed_witness:
  "commit degenerate_env ('':PERSON'', [], '':PERSON'') ''p'' (start 0) =
     (start 0)\<lparr>store := add_triplets degenerate_env [('':PERSON'', [], '':PERSON'')] ''p''
                          (store (start 0)),
               trace := trace (start 0) @ [AddTriplets [('':PERSON'', [], '':PERSON'')] ''p'']\<rparr>
   \<and> (\<exists>evs. trace (snd (build_kg degenerate_env [(''x:PERSON'', ''r'', ''y:PERSON'')] ''p''
                (start 0))) = trace (start 0) @ evs
           \<and> commits evs = map (\<lambda>t. ([t], ''p'')) [('':PERSON'', [], '':PERSON'')])"
proof -
  have a: "fst (build_kg degenerate_env [(''x:PERSON'', ''r'', ''y:PERSON'')] ''p'' (start 0))
      = Inr [('':PERSON'', [], '':PERSON'')]"
    by code_simp
  note inst = accepted_always_committed[of degenerate_env "('':PERSON'', [], '':PERSON'')" "''p''"
      "start 0" "[(''x:PERSON'', ''r'', ''y:PERSON'')]" "[('':PERSON'', [], '':PERSON'')]"]
  from inst[THEN conjunct2] a
  have "\<exists>evs. trace (snd (build_kg degenerate_env [(''x:PERSON'', ''r'', ''y:PERSON'')] ''p''
                (start 0))) = trace (start 0) @ evs
           \<and> commits evs = map (\<lambda>t. ([t], ''p'')) [('':PERSON'', [], '':PERSON'')]"
    by (rule mp)
  with inst[THEN conjunct1] show ?thesis by (rule conjI)
qed

text \<open>
  Claim C2, as stated, fails. The builder's engine is the Gemini engine, whose remote call
  fails at every attempt of call 2 and succeeds otherwise. \<^verbatim>\<open>build_kg\<close> on two candidates
  from call 2 on raises \<^verbatim>\<open>RetryError\<close> after the retrieval and the one call for the first
  candidate; the second candidate, which would have been accepted, is never validated.
  The whole run of the workflow raises the same error and leaves the store empty.
\<close>

theorem oracle_failure_aborts_run:
  "fst (build_kg failing_env [(''a:X'', ''r'', ''b:X''), (''c:X'', ''r'', ''d:X'')] ''p'' (start 2))
     = Inl RetryError
   \<and> trace (snd (build_kg failing_env [(''a:X'', ''r'', ''b:X''), (''c:X'', ''r'', ''d:X'')] ''p''
        (start 2)))
     = [RetrieveSimilar (''a:X'', ''r'', ''b:X''),
        BuilderCompletion (first_prompt failing_env (start 2) (''a:X'', ''r'', ''b:X''))]
   \<and> fst (build_kg failing_env [(''c:X'', ''r'', ''d:X'')] ''p'' (start 3))
     = Inr [(''k:X'', ''r'', ''l:X'')]
   \<and> fst (workflow failing_env ''one|two'' True (start 0)) = Inl RetryError
   \<and> store (snd (workflow failing_env ''one|two'' True (start 0))) = []"
  by code_simp

text \<open>
  Claim C2, amended. No function of the validation stage catches an exception. When the
  five attempts of the Gemini engine all fail, its \<^verbatim>\<open>chat_completion\<close> raises
  \<^verbatim>\<open>RetryError\<close>; when the engine raises at the first call for a candidate or at its retry
  call, \<^verbatim>\<open>build_kg\<close> raises the same exception at that candidate, with nothing added to
  the store for it and no later candidate validated; \<^verbatim>\<open>build_kg\<close> raising makes the
  loop over the passages raise, and that makes the workflow raise.
\<close>

theorem oracle_failure_propagates:
  "((\<forall>i<5. send (clock st) (1 + i) (snd (last (first_prompt env st rel))) = None)
      \<and> builder_chat_completion env = gemini_chat_completion send \<longrightarrow>
      build_kg_loop env (rel # rels) passage added st =
        (Inl RetryError,
         st\<lparr>clock := Suc (clock st),
            trace := trace st @ [RetrieveSimilar rel, BuilderCompletion (first_prompt env st rel)]\<rparr>))
   \<and> (builder_chat_completion env (clock st) (first_prompt env st rel) = Inl e \<longrightarrow>
      build_kg_loop env (rel # rels) passage added st =
        (Inl e,
         st\<lparr>clock := Suc (clock st),
            trace := trace st @ [RetrieveSimilar rel, BuilderCompletion (first_prompt env st rel)]\<rparr>))
   \<and> (builder_chat_completion env (clock st) (first_prompt env st rel) = Inr g
      \<and> extract_new_triplet g (allowed_entity_types env) = Inr (ErrorSignal err)
      \<and> builder_chat_completion env (Suc (clock st)) (retry_prompt env st rel g err) = Inl e \<longrightarrow>
      build_kg_loop env (rel # rels) passage added st =
        (Inl e,
         st\<lparr>clock := Suc (Suc (clock st)),
            trace := trace st @ [RetrieveSimilar rel, BuilderCompletion (first_prompt env st rel),
                                 BuilderCompletion (retry_prompt env st rel g err)]\<rparr>))
   \<and> (fst (build_kg env proposed c st) = Inl e \<and> py_index ex (int i) = Inr proposed \<longrightarrow>
      fst (build_loop env ((i, c) # ics) ex st) = Inl e)
   \<and> (fst (extract_loop env (split_text env doc) [] st) = Inr ex
      \<and> fst (build_loop env (enumerate 0 (split_text env doc)) ex
               (clear_caches d ExtractorClearCaches
                  (snd (extract_loop env (split_text env doc) [] st)))) = Inl e \<longrightarrow>
      fst (workflow env doc d st) = Inl e)"
proof (intro conjI impI)
  assume "(\<forall>i<5. send (clock st) (1 + i) (snd (last (first_prompt env st rel))) = None)
      \<and> builder_chat_completion env = gemini_chat_completion send"
  then have "builder_chat_completion env (clock st) (first_prompt env st rel) = Inl RetryError"
    using gemini_exhausted[of send "clock st" "first_prompt env st rel"] by simp
  then show "build_kg_loop env (rel # rels) passage added st =
        (Inl RetryError,
         st\<lparr>clock := Suc (clock st),
            trace := trace st @ [RetrieveSimilar rel, BuilderCompletion (first_prompt env st rel)]\<rparr>)"
    by (intro build_kg_loop_step_fails step_first_fails)
next
  assume "builder_chat_completion env (clock st) (first_prompt env st rel) = Inl e"
  then show "build_kg_loop env (rel # rels) passage added st =
        (Inl e,
         st\<lparr>clock := Suc (clock st),
            trace := trace st @ [RetrieveSimilar rel, BuilderCompletion (first_prompt env st rel)]\<rparr>)"
    by (intro build_kg_loop_step_fails step_first_fails)
next
  assume "builder_chat_completion env (clock st) (first_prompt env st rel) = Inr g
      \<and> extract_new_triplet g (allowed_entity_types env) = Inr (ErrorSignal err)
      \<and> builder_chat_completion env (Suc (clock st)) (retry_prompt env st rel g err) = Inl e"
  then show "build_kg_loop env (rel # rels) passage added st =
        (Inl e,
         st\<lparr>clock := Suc (Suc (clock st)),
            trace := trace st @ [RetrieveSimilar rel, BuilderCompletion (first_prompt env st rel),
                                 BuilderCompletion (retry_prompt env st rel g err)]\<rparr>)"
    by (intro build_kg_loop_step_fails step_retry_fails) simp_all
next
  assume "fst (build_kg env proposed c st) = Inl e \<and> py_index ex (int i) = Inr proposed"
  then show "fst (build_loop env ((i, c) # ics) ex st) = Inl e"
    using build_loop_fails by blast
next
  assume "fst (extract_loop env (split_text env doc) [] st) = Inr ex
      \<and> fst (build_loop env (enumerate 0 (split_text env doc)) ex
               (clear_caches d ExtractorClearCaches
                  (snd (extract_loop env (split_text env doc) [] st)))) = Inl e"
  then show "fst (workflow env doc d st) = Inl e"
    using workflow_fails by blast
qed

theorem oracle_failure_propagates_witness:
  "fst (build_kg_loop failing_env [(''a:X'', ''r'', ''b:X''), (''c:X'', ''r'', ''d:X'')] ''p'' []
         (start 2)) = Inl RetryError
   \<and> fst (build_kg_loop degenerate_env [(''a:X'', ''r'', ''b:X'')] ''p'' [] (start 1))
       = Inl OracleFailure
   \<and> fst (build_kg_loop retry_env [(''a:X'', ''r'', ''b:X'')] ''p'' [] (start 5))
       = Inl OracleFailure
   \<and> fst (build_loop failing_env [(0, ''p'')] [[(''a:X'', ''r'', ''b:X'')]] (start 2))
       = Inl RetryError
   \<and> fst (workflow failing_env ''one|two'' True (start 0)) = Inl RetryError"
proof (intro conjI)
  have h1: "(\<forall>i<5. (\<lambda>n a content. if n = 2 then None else Some ''Add triplet: (k:X, r, l:X)'')
              (clock (start 2)) (1 + i)
              (snd (last (first_prompt failing_env (start 2) (''a:X'', ''r'', ''b:X'')))) = None)
      \<and> builder_chat_completion failing_env =
          gemini_chat_completion
            (\<lambda>n a content. if n = 2 then None else Some ''Add triplet: (k:X, r, l:X)'')"
    by (simp add: start_def failing_env_def list_env_def)
  from oracle_failure_propagates[where env = failing_env and st = "start 2"
      and rel = "(''a:X'', ''r'', ''b:X'')" and rels = "[(''c:X'', ''r'', ''d:X'')]"
      and passage = "''p''" and added = "[]"
      and send = "\<lambda>n a content. if n = 2 then None else Some ''Add triplet: (k:X, r, l:X)''",
      THEN conjunct1, THEN mp, OF h1]
  show "fst (build_kg_loop failing_env [(''a:X'', ''r'', ''b:X''), (''c:X'', ''r'', ''d:X'')] ''p'' []
         (start 2)) = Inl RetryError"
    by (simp only: fst_conv)
next
  have h2: "builder_chat_completion degenerate_env (clock (start 1))
      (first_prompt degenerate_env (start 1) (''a:X'', ''r'', ''b:X'')) = Inl OracleFailure"
    by code_simp
  from oracle_failure_propagates[where env = degenerate_env and st = "start 1"
      and rel = "(''a:X'', ''r'', ''b:X'')" and rels = "[]" and e = OracleFailure
      and passage = "''p''" and added = "[]",
      THEN conjunct2, THEN conjunct1, THEN mp, OF h2]
  show "fst (build_kg_loop degenerate_env [(''a:X'', ''r'', ''b:X'')] ''p'' [] (start 1))
       = Inl OracleFailure"
    by (simp only: fst_conv)
next
  have h3: "builder_chat_completion retry_env (clock (start 5))
        (first_prompt retry_env (start 5) (''a:X'', ''r'', ''b:X'')) = Inr ''no key''
      \<and> extract_new_triplet ''no key'' (allowed_entity_types retry_env)
          = Inr (ErrorSignal missing_key_message)
      \<and> builder_chat_completion retry_env (Suc (clock (start 5)))
          (retry_prompt retry_env (start 5) (''a:X'', ''r'', ''b:X'') ''no key''
             missing_key_message) = Inl OracleFailure"
    by code_simp
  from oracle_failure_propagates[where env = retry_env and st = "start 5"
      and rel = "(''a:X'', ''r'', ''b:X'')" and rels = "[]" and e = OracleFailure
      and passage = "''p''" and added = "[]" and g = "''no key''"
      and err = missing_key_message,
      THEN conjunct2, THEN conjunct2, THEN conjunct1, THEN mp, OF h3]
  show "fst (build_kg_loop retry_env [(''a:X'', ''r'', ''b:X'')] ''p'' [] (start 5))
       = Inl OracleFailure"
    by (simp only: fst_conv)
next
  have h4: "fst (build_kg failing_env [(''a:X'', ''r'', ''b:X'')] ''p'' (start 2)) = Inl RetryError
      \<and> py_index [[(''a:X'', ''r'', ''b:X'')]] (int 0) = Inr [(''a:X'', ''r'', ''b:X'')]"
    by code_simp
  from oracle_failure_propagates[where env = failing_env and st = "start 2"
      and e = RetryError and proposed = "[(''a:X'', ''r'', ''b:X'')]" and c = "''p''"
      and ex = "[[(''a:X'', ''r'', ''b:X'')]]" and i = 0 and ics = "[]",
      THEN conjunct2, THEN conjunct2, THEN conjunct2, THEN conjunct1, THEN mp, OF h4]
  show "fst (build_loop failing_env [(0, ''p'')] [[(''a:X'', ''r'', ''b:X'')]] (start 2))
       = Inl RetryError" .
next
  have h5: "fst (extract_loop failing_env (split_text failing_env ''one|two'') [] (start 0))
        = Inr [[(''a:X'', ''r'', ''b:X'')], [(''c:X'', ''r'', ''d:X'')]]
      \<and> fst (build_loop failing_env (enumerate 0 (split_text failing_env ''one|two''))
               [[(''a:X'', ''r'', ''b:X'')], [(''c:X'', ''r'', ''d:X'')]]
               (clear_caches True ExtractorClearCaches
                  (snd (extract_loop failing_env (split_text failing_env ''one|two'') []
                     (start 0))))) = Inl RetryError"
    by code_simp
  from oracle_failure_propagates[where env = failing_env and st = "start 0"
      and e = RetryError and doc = "''one|two''" and d = True
      and ex = "[[(''a:X'', ''r'', ''b:X'')], [(''c:X'', ''r'', ''d:X'')]]",
      THEN conjunct2, THEN conjunct2, THEN conjunct2, THEN conjunct2, THEN mp, OF h5]
  show "fst (workflow failing_env ''one|two'' True (start 0)) = Inl RetryError" .
qed

text \<open>
  Claim C5. When the first generation for a candidate is parsed to an error text and the
  engine answers the retry, the engine is called exactly once more, with the messages of
  the first attempt followed by a message that quotes the generation and the error text.
  If the retry is parsed to a triplet, that triplet is added to the store and to the
  list returned; if it is parsed to an error text or to \<^verbatim>\<open>None\<close>, nothing is added and
  no third call is made. In both cases the loop goes on with the remaining candidates.
\<close>

theorem retry_once:
  assumes "builder_chat_completion env (clock st) (first_prompt env st rel) = Inr g
    \<and> extract_new_triplet g (allowed_entity_types env) = Inr (ErrorSignal err)
    \<and> builder_chat_completion env (Suc (clock st)) (retry_prompt env st rel g err) = Inr g2
    \<and> extract_new_triplet g2 (allowed_entity_types env) = Inr d2"
  shows "build_kg_loop env (rel # rels) passage added st =
    (case d2 of
       Triplet t \<Rightarrow>
         build_kg_loop env rels passage (added @ [t])
           (st\<lparr>clock := Suc (Suc (clock st)),
               store := add_triplets env [t] passage (store st),
               trace := trace st @ [RetrieveSimilar rel,
                                    BuilderCompletion (first_prompt env st rel),
                                    BuilderCompletion (retry_prompt env st rel g err),
                                    AddTriplets [t] passage]\<rparr>)
     | ErrorSignal err2 \<Rightarrow>
         build_kg_loop env rels passage added
           (st\<lparr>clock := Suc (Suc (clock st)),
               trace := trace st @ [RetrieveSimilar rel,
                                    BuilderCompletion (first_prompt env st rel),
                                    BuilderCompletion (retry_prompt env st rel g err)]\<rparr>)
     | NoOp \<Rightarrow>
         build_kg_loop env rels passage added
           (st\<lparr>clock := Suc (Suc (clock st)),
               trace := trace st @ [RetrieveSimilar rel,
                                    BuilderCompletion (first_prompt env st rel),
                                    BuilderCompletion (retry_prompt env st rel g err)]\<rparr>))
    \<and> snd (last (retry_prompt env st rel g err)) =
        ''Your last generation:'' @ [newline] @ '' '' @ g @ [newline]
        @ '' generated the following error message:'' @ err"
proof (rule conjI)
  from assms have a: "builder_chat_completion env (clock st) (first_prompt env st rel) = Inr g"
    and b: "extract_new_triplet g (allowed_entity_types env) = Inr (ErrorSignal err)"
    and c: "builder_chat_completion env (Suc (clock st)) (retry_prompt env st rel g err) = Inr g2"
    and d: "extract_new_triplet g2 (allowed_entity_types env) = Inr d2"
    by blast+
  show "build_kg_loop env (rel # rels) passage added st =
    (case d2 of
       Triplet t \<Rightarrow>
         build_kg_loop env rels passage (added @ [t])
           (st\<lparr>clock := Suc (Suc (clock st)),
               store := add_triplets env [t] passage (store st),
               trace := trace st @ [RetrieveSimilar rel,
                                    BuilderCompletion (first_prompt env st rel),
                                    BuilderCompletion (retry_prompt env st rel g err),
                                    AddTriplets [t] passage]\<rparr>)
     | ErrorSignal err2 \<Rightarrow>
         build_kg_loop env rels passage added
           (st\<lparr>clock := Suc (Suc (clock st)),
               trace := trace st @ [RetrieveSimilar rel,
                                    BuilderCompletion (first_prompt env st rel),
                                    BuilderCompletion (retry_prompt env st rel g err)]\<rparr>)
     | NoOp \<Rightarrow>
         build_kg_loop env rels passage added
           (st\<lparr>clock := Suc (Suc (clock st)),
               trace := trace st @ [RetrieveSimilar rel,
                                    BuilderCompletion (first_prompt env st rel),
                                    BuilderCompletion (retry_prompt env st rel g err)]\<rparr>))"
  proof (cases d2)
    case (Triplet t)
    from step_retry_accepts[OF a b c d[unfolded Triplet], of passage] Triplet
    show ?thesis by simp
  next
    case (ErrorSignal err2)
    then have "\<forall>t. d2 \<noteq> Triplet t" by simp
    from step_retry_discards[OF a b c d this, of passage] ErrorSignal
    show ?thesis by simp
  next
    case NoOp
    then have "\<forall>t. d2 \<noteq> Triplet t" by simp
    from step_retry_discards[OF a b c d this, of passage] NoOp
    show ?thesis by simp
  qed
next
  show "snd (last (retry_prompt env st rel g err)) =
        ''Your last generation:'' @ [newline] @ '' '' @ g @ [newline]
        @ '' generated the following error message:'' @ err"
    by (simp add: retry_prompt_def retry_messages_def Let_def)
qed

theorem retry_once_witness:
  "build_kg_loop retry_env [(''a:X'', ''r'', ''b:X''), (''c:X'', ''r'', ''d:X'')] ''p'' [] (start 0) =
     build_kg_loop retry_env [(''c:X'', ''r'', ''d:X'')] ''p'' ([] @ [(''m:X'', ''r'', ''l:X'')])
       ((start 0)\<lparr>clock := Suc (Suc (clock (start 0))),
          store := add_triplets retry_env [(''m:X'', ''r'', ''l:X'')] ''p'' (store (start 0)),
          trace := trace (start 0)
            @ [RetrieveSimilar (''a:X'', ''r'', ''b:X''),
               BuilderCompletion (first_prompt retry_env (start 0) (''a:X'', ''r'', ''b:X'')),
               BuilderCompletion (retry_prompt retry_env (start 0) (''a:X'', ''r'', ''b:X'')
                                    ''(m:X, r, l:X)'' missing_key_message),
               AddTriplets [(''m:X'', ''r'', ''l:X'')] ''p'']\<rparr>)
   \<and> build_kg_loop retry_env [(''c:X'', ''r'', ''d:X'')] ''p'' [(''m:X'', ''r'', ''l:X'')] (start 2) =
     build_kg_loop retry_env [] ''p'' [(''m:X'', ''r'', ''l:X'')]
       ((start 2)\<lparr>clock := Suc (Suc (clock (start 2))),
          trace := trace (start 2)
            @ [RetrieveSimilar (''c:X'', ''r'', ''d:X''),
               BuilderCompletion (first_prompt retry_env (start 2) (''c:X'', ''r'', ''d:X'')),
               BuilderCompletion (retry_prompt retry_env (start 2) (''c:X'', ''r'', ''d:X'')
                                    ''Add triplet: (m:Y, r, l:X)'' (types_message [''X'']))]\<rparr>)
   \<and> fst (build_kg_loop retry_env [(''a:X'', ''r'', ''b:X''), (''c:X'', ''r'', ''d:X'')] ''p'' []
          (start 0)) = Inr [(''m:X'', ''r'', ''l:X'')]"
proof (intro conjI)
  have h: "builder_chat_completion retry_env (clock (start 0))
        (first_prompt retry_env (start 0) (''a:X'', ''r'', ''b:X'')) = Inr ''(m:X, r, l:X)''
    \<and> extract_new_triplet ''(m:X, r, l:X)'' (allowed_entity_types retry_env)
        = Inr (ErrorSignal missing_key_message)
    \<and> builder_chat_completion retry_env (Suc (clock (start 0)))
        (retry_prompt retry_env (start 0) (''a:X'', ''r'', ''b:X'') ''(m:X, r, l:X)''
           missing_key_message) = Inr ''Add triplet: (m:X, r, l:X)''
    \<and> extract_new_triplet ''Add triplet: (m:X, r, l:X)'' (allowed_entity_types retry_env)
        = Inr (Triplet (''m:X'', ''r'', ''l:X''))"
    by code_simp
  from retry_once[where env = retry_env and st = "start 0" and rel = "(''a:X'', ''r'', ''b:X'')"
      and rels = "[(''c:X'', ''r'', ''d:X'')]" and passage = "''p''" and added = "[]", OF h,
      THEN conjunct1]
  show "build_kg_loop retry_env [(''a:X'', ''r'', ''b:X''), (''c:X'', ''r'', ''d:X'')] ''p'' [] (start 0) =
     build_kg_loop retry_env [(''c:X'', ''r'', ''d:X'')] ''p'' ([] @ [(''m:X'', ''r'', ''l:X'')])
       ((start 0)\<lparr>clock := Suc (Suc (clock (start 0))),
          store := add_triplets retry_env [(''m:X'', ''r'', ''l:X'')] ''p'' (store (start 0)),
          trace := trace (start 0)
            @ [RetrieveSimilar (''a:X'', ''r'', ''b:X''),
               BuilderCompletion (first_prompt retry_env (start 0) (''a:X'', ''r'', ''b:X'')),
               BuilderCompletion (retry_prompt retry_env (start 0) (''a:X'', ''r'', ''b:X'')
                                    ''(m:X, r, l:X)'' missing_key_message),
               AddTriplets [(''m:X'', ''r'', ''l:X'')] ''p'']\<rparr>)"
    by (simp only: decision.case)
next
  have h: "builder_chat_completion retry_env (clock (start 2))
        (first_prompt retry_env (start 2) (''c:X'', ''r'', ''d:X'')) = Inr ''Add triplet: (m:Y, r, l:X)''
    \<and> extract_new_triplet ''Add triplet: (m:Y, r, l:X)'' (allowed_entity_types retry_env)
        = Inr (ErrorSignal (types_message [''X'']))
    \<and> builder_chat_completion retry_env (Suc (clock (start 2)))
        (retry_prompt retry_env (start 2) (''c:X'', ''r'', ''d:X'') ''Add triplet: (m:Y, r, l:X)''
           (types_message [''X''])) = Inr ''Add triplet: (m:Y, r, l:X)''
    \<and> extract_new_triplet ''Add triplet: (m:Y, r, l:X)'' (allowed_entity_types retry_env)
        = Inr (ErrorSignal (types_message [''X'']))"
    by code_simp
  from retry_once[where env = retry_env and st = "start 2" and rel = "(''c:X'', ''r'', ''d:X'')"
      and rels = "[]" and passage = "''p''" and added = "[(''m:X'', ''r'', ''l:X'')]", OF h,
      THEN conjunct1]
  show "build_kg_loop retry_env [(''c:X'', ''r'', ''d:X'')] ''p'' [(''m:X'', ''r'', ''l:X'')] (start 2) =
     build_kg_loop retry_env [] ''p'' [(''m:X'', ''r'', ''l:X'')]
       ((start 2)\<lparr>clock := Suc (Suc (clock (start 2))),
          trace := trace (start 2)
            @ [RetrieveSimilar (''c:X'', ''r'', ''d:X''),
               BuilderCompletion (first_prompt retry_env (start 2) (''c:X'', ''r'', ''d:X'')),
               BuilderCompletion (retry_prompt retry_env (start 2) (''c:X'', ''r'', ''d:X'')
                                    ''Add triplet: (m:Y, r, l:X)'' (types_message [''X'']))]\<rparr>)"
    by (simp only: decision.case)
next
  show "fst (build_kg_loop retry_env [(''a:X'', ''r'', ''b:X''), (''c:X'', ''r'', ''d:X'')] ''p'' []
          (start 0)) = Inr [(''m:X'', ''r'', ''l:X'')]"
    by code_simp
qed

text \<open>
  Claim C8. When the first generation for a candidate is parsed to an error text, the
  step for that candidate retrieves from the store once, before the first attempt, and
  the messages of the retry carry that same list: they are the system prompt and the
  user message of the first attempt, whose text holds the retrieved triplets joined by
  newlines (or \<^verbatim>\<open>Empty graph\<close> when there are none), followed by the message that quotes
  the generation and the error text. After the two calls no further retrieval is made.
\<close>

theorem retry_prompt_from_first_retrieval:
  assumes "builder_chat_completion env (clock st) (first_prompt env st rel) = Inr g
    \<and> extract_new_triplet g (allowed_entity_types env) = Inr (ErrorSignal err)"
  shows "let similar = retrieve_similar_triplets env (store st) rel;
             extracted = (if similar = [] then ''Empty graph'' else str_join [newline] similar);
             standard_msgs =
               [(''system'', builder_system_prompt env),
                (''user'', already_extracted_prompt @ '':'' @ [newline] @ '' '' @ extracted
                           @ [newline] @ builder_allowed_types_prompt @ '' ''
                           @ process_types (allowed_entity_types env) @ [newline]
                           @ proposed_prompt @ '': '' @ get_triplet_string rel @ [newline])];
             retry_message =
               (''user'', ''Your last generation:'' @ [newline] @ '' '' @ g @ [newline]
                          @ '' generated the following error message:'' @ err)
         in \<exists>evs. trace (snd (build_kg_step env rel passage st)) =
                  trace st
                  @ [RetrieveSimilar rel,
                     BuilderCompletion standard_msgs,
                     BuilderCompletion (standard_msgs @ [retry_message])]
                  @ evs
                \<and> (\<forall>e\<in>set evs. \<forall>x. e \<noteq> RetrieveSimilar x)"
proof -
  from assms have a: "builder_chat_completion env (clock st) (first_prompt env st rel) = Inr g"
    and b: "extract_new_triplet g (allowed_entity_types env) = Inr (ErrorSignal err)"
    by blast+
  show ?thesis
  proof (cases "builder_chat_completion env (Suc (clock st)) (retry_prompt env st rel g err)")
    case (Inl e)
    from step_retry_fails[OF a b Inl, of passage] show ?thesis
      by (simp add: first_prompt_def retry_prompt_def similar_at_def builder_get_messages_def
          retry_messages_def Let_def)
  next
    case (Inr g2)
    obtain d2 where d2: "extract_new_triplet g2 (allowed_entity_types env) = Inr d2"
      using extract_new_triplet_total by blast
    show ?thesis
    proof (cases "\<exists>t. d2 = Triplet t")
      case True
      then obtain t where t: "d2 = Triplet t" by blast
      from step_retry_accepts[OF a b Inr d2[unfolded t], of passage] show ?thesis
        by (simp add: first_prompt_def retry_prompt_def similar_at_def builder_get_messages_def
            retry_messages_def Let_def)
    next
      case False
      then have "\<forall>t. d2 \<noteq> Triplet t" by blast
      from step_retry_discards[OF a b Inr d2 this, of passage] show ?thesis
        by (simp add: first_prompt_def retry_prompt_def similar_at_def builder_get_messages_def
            retry_messages_def Let_def)
    qed
  qed
qed

theorem retry_prompt_from_first_retrieval_witness:
  "retrieve_similar_triplets retry_env (store (seeded 0)) (''a:X'', ''r'', ''b:X'')
     = [''(k:X, r, l:X)'']
   \<and> (let similar = [''(k:X, r, l:X)''];
           extracted = (if similar = [] then ''Empty graph'' else str_join [newline] similar);
           standard_msgs =
             [(''system'', builder_system_prompt retry_env),
              (''user'', already_extracted_prompt @ '':'' @ [newline] @ '' '' @ extracted
                         @ [newline] @ builder_allowed_types_prompt @ '' ''
                         @ process_types (allowed_entity_types retry_env) @ [newline]
                         @ proposed_prompt @ '': '' @ get_triplet_string (''a:X'', ''r'', ''b:X'')
                         @ [newline])];
           retry_message =
             (''user'', ''Your last generation:'' @ [newline] @ '' '' @ ''(m:X, r, l:X)''
                        @ [newline] @ '' generated the following error message:''
                        @ missing_key_message)
       in \<exists>evs. trace (snd (build_kg_step retry_env (''a:X'', ''r'', ''b:X'') ''p'' (seeded 0))) =
                trace (seeded 0)
                @ [RetrieveSimilar (''a:X'', ''r'', ''b:X''),
                   BuilderCompletion standard_msgs,
                   BuilderCompletion (standard_msgs @ [retry_message])]
                @ evs
              \<and> (\<forall>e\<in>set evs. \<forall>x. e \<noteq> RetrieveSimilar x))
   \<and> commits (trace (snd (build_kg_step retry_env (''a:X'', ''r'', ''b:X'') ''p'' (seeded 0))))
       = [([(''m:X'', ''r'', ''l:X'')], ''p'')]
   \<and> str_contains ''(k:X, r, l:X)''
        (snd (retry_prompt retry_env (seeded 0) (''a:X'', ''r'', ''b:X'') ''(m:X, r, l:X)''
                missing_key_message ! 1))"
proof (intro conjI)
  show sim: "retrieve_similar_triplets retry_env (store (seeded 0)) (''a:X'', ''r'', ''b:X'')
     = [''(k:X, r, l:X)'']"
    by code_simp
  have h: "builder_chat_completion retry_env (clock (seeded 0))
        (first_prompt retry_env (seeded 0) (''a:X'', ''r'', ''b:X'')) = Inr ''(m:X, r, l:X)''
    \<and> extract_new_triplet ''(m:X, r, l:X)'' (allowed_entity_types retry_env)
        = Inr (ErrorSignal missing_key_message)"
    by code_simp
  from retry_prompt_from_first_retrieval[where env = retry_env and st = "seeded 0"
      and rel = "(''a:X'', ''r'', ''b:X'')" and passage = "''p''", OF h]
  show "let similar = [''(k:X, r, l:X)''];
           extracted = (if similar = [] then ''Empty graph'' else str_join [newline] similar);
           standard_msgs =
             [(''system'', builder_system_prompt retry_env),
              (''user'', already_extracted_prompt @ '':'' @ [newline] @ '' '' @ extracted
                         @ [newline] @ builder_allowed_types_prompt @ '' ''
                         @ process_types (allowed_entity_types retry_env) @ [newline]
                         @ proposed_prompt @ '': '' @ get_triplet_string (''a:X'', ''r'', ''b:X'')
                         @ [newline])];
           retry_message =
             (''user'', ''Your last generation:'' @ [newline] @ '' '' @ ''(m:X, r, l:X)''
                        @ [newline] @ '' generated the following error message:''
                        @ missing_key_message)
       in \<exists>evs. trace (snd (build_kg_step retry_env (''a:X'', ''r'', ''b:X'') ''p'' (seeded 0))) =
                trace (seeded 0)
                @ [RetrieveSimilar (''a:X'', ''r'', ''b:X''),
                   BuilderCompletion standard_msgs,
                   BuilderCompletion (standard_msgs @ [retry_message])]
                @ evs
              \<and> (\<forall>e\<in>set evs. \<forall>x. e \<noteq> RetrieveSimilar x)"
    unfolding sim .
next
  show "commits (trace (snd (build_kg_step retry_env (''a:X'', ''r'', ''b:X'') ''p'' (seeded 0))))
       = [([(''m:X'', ''r'', ''l:X'')], ''p'')]"
    by code_simp
next
  show "str_contains ''(k:X, r, l:X)''
        (snd (retry_prompt retry_env (seeded 0) (''a:X'', ''r'', ''b:X'') ''(m:X, r, l:X)''
                missing_key_message ! 1))"
    by code_simp
qed

text \<open>
  Claim C6. Every triplet \<^verbatim>\<open>build_kg\<close> adds to the store has the type of its subject and
  the type of its object in the list of allowed types. The parser of the decision returns
  a triplet only with both types in the list, and for a single group of three fields
  with a type outside the list it returns the error text about the types instead.
\<close>

theorem committed_types_allowed:
  "(extract_new_triplet g allowed = Inr (Triplet t) \<longrightarrow> typed_triplet allowed t)
   \<and> (decision_group g t0 \<and> rejected_group allowed t0 p \<longrightarrow>
        extract_new_triplet g allowed = Inr (ErrorSignal (types_message allowed)))
   \<and> (\<exists>evs. trace (snd (build_kg env rels passage st)) = trace st @ evs
        \<and> (\<forall>(ts, p)\<in>set (commits evs).
             \<forall>t\<in>set ts. typed_triplet (allowed_entity_types env) t))"
proof (intro conjI impI)
  assume "extract_new_triplet g allowed = Inr (Triplet t)"
  then show "typed_triplet allowed t" by (rule extract_new_triplet_typed)
next
  assume "decision_group g t0 \<and> rejected_group allowed t0 p"
  then show "extract_new_triplet g allowed = Inr (ErrorSignal (types_message allowed))"
    using extract_new_triplet_rejects by blast
next
  obtain r st' where run: "build_kg_loop env rels passage [] st = (r, st')"
    by (cases "build_kg_loop env rels passage [] st")
  from build_kg_loop_events[OF run] obtain evs where
    "trace st' = trace st @ evs"
    "\<forall>(ts, p)\<in>set (commits evs). p = passage \<and> (\<forall>t\<in>set ts. typed_triplet (allowed_entity_types env) t)"
    by blast
  then show "\<exists>evs. trace (snd (build_kg env rels passage st)) = trace st @ evs
        \<and> (\<forall>(ts, p)\<in>set (commits evs).
             \<forall>t\<in>set ts. typed_triplet (allowed_entity_types env) t)"
    using run by (intro exI[of _ evs]) (auto simp: build_kg_def)
qed

theorem committed_types_allowed_witness:
  "typed_triplet [''X''] (''m:X'', ''r'', ''l:X'')
   \<and> extract_new_triplet ''Add triplet: (m:Y, r, l:X)'' [''X'']
       = Inr (ErrorSignal (types_message [''X'']))
   \<and> (\<exists>evs. trace (snd (build_kg retry_env [(''a:X'', ''r'', ''b:X''), (''c:X'', ''r'', ''d:X'')]
                  ''p'' (start 0))) = trace (start 0) @ evs
        \<and> (\<forall>(ts, p)\<in>set (commits evs).
             \<forall>t\<in>set ts. typed_triplet (allowed_entity_types retry_env) t))"
proof (intro conjI)
  have h1: "extract_new_triplet ''Add triplet: (m:X, r, l:X)'' [''X'']
      = Inr (Triplet (''m:X'', ''r'', ''l:X''))"
    by code_simp
  from committed_types_allowed[where g = "''Add triplet: (m:X, r, l:X)''" and allowed = "[''X'']"
      and t = "(''m:X'', ''r'', ''l:X'')", THEN conjunct1] h1
  show "typed_triplet [''X''] (''m:X'', ''r'', ''l:X'')" by (rule mp)
next
  have h2: "decision_group ''Add triplet: (m:Y, r, l:X)'' ''m:Y, r, l:X''
      \<and> rejected_group [''X''] ''m:Y, r, l:X''
          \<lparr>entity1 = ''m'', type1 = ''Y'', relation = ''r'', entity2 = ''l'', type2 = ''X''\<rparr>"
    by code_simp
  from committed_types_allowed[where g = "''Add triplet: (m:Y, r, l:X)''" and allowed = "[''X'']"
      and ?t0.0 = "''m:Y, r, l:X''"
      and p = "\<lparr>entity1 = ''m'', type1 = ''Y'', relation = ''r'', entity2 = ''l'', type2 = ''X''\<rparr>",
      THEN conjunct2, THEN conjunct1] h2
  show "extract_new_triplet ''Add triplet: (m:Y, r, l:X)'' [''X'']
       = Inr (ErrorSignal (types_message [''X'']))" by (rule mp)
next
  show "\<exists>evs. trace (snd (build_kg retry_env [(''a:X'', ''r'', ''b:X''), (''c:X'', ''r'', ''d:X'')]
                  ''p'' (start 0))) = trace (start 0) @ evs
        \<and> (\<forall>(ts, p)\<in>set (commits evs).
             \<forall>t\<in>set ts. typed_triplet (allowed_entity_types retry_env) t)"
    by (rule committed_types_allowed[THEN conjunct2, THEN conjunct2])
qed

section \<open>The claim about the orchestrator\<close>

text \<open>
  Claim C7. In the trace of a run of the workflow every event of the extraction comes
  before every other event: all passages are extracted before any validation begins. If
  the extraction raises, the run ends there. Otherwise the list of extracted candidate
  lists is as long as the list of passages, its entry \<open>i\<close> is what \<^verbatim>\<open>format_triplets\<close>
  makes of the answer to call \<open>i\<close> of the extractor, asked about passage \<open>i\<close>; and the
  rest of the run is the validation of the lists in order, list \<open>i\<close> with passage \<open>i\<close>,
  from the state the extraction left.
\<close>

theorem workflow_phases:
  "(\<exists>evs1 evs2. trace (snd (workflow env doc d st)) = trace st @ evs1 @ evs2
       \<and> (\<forall>e\<in>set evs1. extraction_event e) \<and> (\<forall>e\<in>set evs2. \<not> extraction_event e))
   \<and> (fst (extraction_phase env doc st) = Inl e \<longrightarrow>
        workflow env doc d st = (Inl e, snd (extraction_phase env doc st)))
   \<and> (fst (extraction_phase env doc st) = Inr ex \<longrightarrow>
        length ex = length (split_text env doc)
        \<and> (\<forall>i<length (split_text env doc). \<exists>decoded ws.
              extractor_chat_completion env (clock st + i)
                (extractor_get_messages (extractor_system_prompt env) (split_text env doc ! i)
                   (allowed_entity_types env)) = Inr decoded
              \<and> format_triplets decoded (allowed_entity_types env) = Inr (ex ! i, ws))
        \<and> workflow env doc d st =
            (case fst (validation_phase env doc d st ex) of
               Inl e \<Rightarrow> (Inl e, snd (validation_phase env doc d st ex))
             | Inr u \<Rightarrow>
                 (Inr (), clear_caches d BuilderClearCaches
                            (snd (validation_phase env doc d st ex)))))"
proof -
  obtain r1 st1 where x: "extract_loop env (split_text env doc) [] st = (r1, st1)"
    by (cases "extract_loop env (split_text env doc) [] st")
  note xr = extract_loop_result[OF x]
  from xr obtain evs1 where e1: "trace st1 = trace st @ evs1" "\<forall>e\<in>set evs1. extraction_event e"
    by blast
  have ph: "extraction_phase env doc st = (r1, st1)"
    by (simp add: extraction_phase_def x)
  have fail: "workflow env doc d st = (Inl e, st1)" if "r1 = Inl e" for e
    using that x by (simp add: workflow_def)
  have ok: "length ex = length (split_text env doc)
        \<and> (\<forall>i<length (split_text env doc). \<exists>decoded ws.
              extractor_chat_completion env (clock st + i)
                (extractor_get_messages (extractor_system_prompt env) (split_text env doc ! i)
                   (allowed_entity_types env)) = Inr decoded
              \<and> format_triplets decoded (allowed_entity_types env) = Inr (ex ! i, ws))
        \<and> workflow env doc d st =
            (case fst (validation_phase env doc d st ex) of
               Inl e \<Rightarrow> (Inl e, snd (validation_phase env doc d st ex))
             | Inr u \<Rightarrow>
                 (Inr (), clear_caches d BuilderClearCaches
                            (snd (validation_phase env doc d st ex))))" if r1: "r1 = Inr ex" for ex
  proof -
    from xr r1 have len: "length ex = length (split_text env doc)"
      and al: "\<forall>i<length (split_text env doc). \<exists>decoded ws.
              extractor_chat_completion env (clock st + i)
                (extractor_get_messages (extractor_system_prompt env) (split_text env doc ! i)
                   (allowed_entity_types env)) = Inr decoded
              \<and> format_triplets decoded (allowed_entity_types env) = Inr (ex ! i, ws)"
      by auto
    have bl: "build_loop env (enumerate 0 (split_text env doc)) ex s
        = validate_in_order env (zip ex (split_text env doc)) s" for s
      using build_loop_enumerate[of 0 "split_text env doc" ex env s] len by simp
    have "workflow env doc d st =
            (case fst (validation_phase env doc d st ex) of
               Inl e \<Rightarrow> (Inl e, snd (validation_phase env doc d st ex))
             | Inr u \<Rightarrow>
                 (Inr (), clear_caches d BuilderClearCaches
                            (snd (validation_phase env doc d st ex))))"
      using x r1
      by (simp add: workflow_def Let_def bl validation_phase_def ph split: prod.splits sum.splits)
    with len al show ?thesis by blast
  qed
  have order: "\<exists>evs1 evs2. trace (snd (workflow env doc d st)) = trace st @ evs1 @ evs2
       \<and> (\<forall>e\<in>set evs1. extraction_event e) \<and> (\<forall>e\<in>set evs2. \<not> extraction_event e)"
  proof (cases r1)
    case (Inl e)
    from fail[OF Inl] e1 show ?thesis
      by (intro exI[of _ evs1] exI[of _ "[]"]) simp
  next
    case (Inr ex)
    obtain r2 st3 where v: "validation_phase env doc d st ex = (r2, st3)"
      by (cases "validation_phase env doc d st ex")
    then have "validate_in_order env (zip ex (split_text env doc))
        (clear_caches d ExtractorClearCaches st1) = (r2, st3)"
      by (simp add: validation_phase_def ph)
    from validate_in_order_events[OF this] obtain evs where
      ev: "trace st3 = trace (clear_caches d ExtractorClearCaches st1) @ evs"
      "\<forall>e\<in>set evs. validation_event e" by blast
    define pre where "pre = (if d then [ExtractorClearCaches] else [])"
    define post where "post = (if d then [BuilderClearCaches] else [])"
    have t3: "trace st3 = trace st @ evs1 @ pre @ evs"
      using ev(1) e1(1) by (simp add: clear_caches_def pre_def)
    have ne: "\<forall>e\<in>set (pre @ evs @ post). \<not> extraction_event e"
      using ev(2) validation_not_extraction by (auto simp: pre_def post_def)
    from ok[OF Inr] have w: "workflow env doc d st =
            (case r2 of Inl e \<Rightarrow> (Inl e, st3)
             | Inr u \<Rightarrow> (Inr (), clear_caches d BuilderClearCaches st3))"
      by (cases r2) (simp_all add: v)
    show ?thesis
    proof (cases r2)
      case (Inl e)
      with w t3 have "trace (snd (workflow env doc d st)) = trace st @ evs1 @ (pre @ evs)"
        by simp
      with e1(2) ne show ?thesis
        by (intro exI[of _ evs1] exI[of _ "pre @ evs"]) auto
    next
      case (Inr u)
      with w t3 have "trace (snd (workflow env doc d st)) = trace st @ evs1 @ (pre @ evs @ post)"
        by (simp add: clear_caches_def post_def)
      with e1(2) ne show ?thesis
        by (intro exI[of _ evs1] exI[of _ "pre @ evs @ post"]) auto
    qed
  qed
  from order fail ok show ?thesis
    unfolding ph by simp
qed

theorem workflow_phases_witness:
  "workflow degenerate_env ''one'' True (start 0)
     = (Inl OracleFailure, snd (extraction_phase degenerate_env ''one'' (start 0)))
   \<and> length [[(''a:X'', ''r'', ''b:X'')], [(''c:X'', ''r'', ''d:X'')]]
       = length (split_text two_passage_env ''one|two'')
   \<and> workflow two_passage_env ''one|two'' True (start 0) =
       (case fst (validation_phase two_passage_env ''one|two'' True (start 0)
                    [[(''a:X'', ''r'', ''b:X'')], [(''c:X'', ''r'', ''d:X'')]]) of
          Inl e \<Rightarrow> (Inl e, snd (validation_phase two_passage_env ''one|two'' True (start 0)
                                  [[(''a:X'', ''r'', ''b:X'')], [(''c:X'', ''r'', ''d:X'')]]))
        | Inr u \<Rightarrow>
            (Inr (), clear_caches True BuilderClearCaches
                       (snd (validation_phase two_passage_env ''one|two'' True (start 0)
                               [[(''a:X'', ''r'', ''b:X'')], [(''c:X'', ''r'', ''d:X'')]]))))
   \<and> store (snd (workflow two_passage_env ''one|two'' True (start 0)))
       = [((''a:X'', ''r'', ''b:X''), ''one''), ((''c:X'', ''r'', ''d:X''), ''two'')]
   \<and> (\<exists>evs1 evs2. trace (snd (workflow two_passage_env ''one|two'' True (start 0)))
         = trace (start 0) @ evs1 @ evs2
       \<and> (\<forall>e\<in>set evs1. extraction_event e) \<and> (\<forall>e\<in>set evs2. \<not> extraction_event e))"
proof (intro conjI)
  have h: "fst (extraction_phase degenerate_env ''one'' (start 0)) = Inl OracleFailure"
    by code_simp
  from workflow_phases[where env = degenerate_env and doc = "''one''" and d = True
      and st = "start 0" and e = OracleFailure, THEN conjunct2, THEN conjunct1] h
  show "workflow degenerate_env ''one'' True (start 0)
     = (Inl OracleFailure, snd (extraction_phase degenerate_env ''one'' (start 0)))"
    by (rule mp)
next
  have h: "fst (extraction_phase two_passage_env ''one|two'' (start 0))
      = Inr [[(''a:X'', ''r'', ''b:X'')], [(''c:X'', ''r'', ''d:X'')]]"
    by code_simp
  note inst = workflow_phases[where env = two_passage_env and doc = "''one|two''" and d = True
      and st = "start 0" and ex = "[[(''a:X'', ''r'', ''b:X'')], [(''c:X'', ''r'', ''d:X'')]]",
      THEN conjunct2, THEN conjunct2, THEN mp, OF h]
  from inst show "length [[(''a:X'', ''r'', ''b:X'')], [(''c:X'', ''r'', ''d:X'')]]
       = length (split_text two_passage_env ''one|two'')"
    by (rule conjunct1)
  from inst show "workflow two_passage_env ''one|two'' True (start 0) =
       (case fst (validation_phase two_passage_env ''one|two'' True (start 0)
                    [[(''a:X'', ''r'', ''b:X'')], [(''c:X'', ''r'', ''d:X'')]]) of
          Inl e \<Rightarrow> (Inl e, snd (validation_phase two_passage_env ''one|two'' True (start 0)
                                  [[(''a:X'', ''r'', ''b:X'')], [(''c:X'', ''r'', ''d:X'')]]))
        | Inr u \<Rightarrow>
            (Inr (), clear_caches True BuilderClearCaches
                       (snd (validation_phase two_passage_env ''one|two'' True (start 0)
                               [[(''a:X'', ''r'', ''b:X'')], [(''c:X'', ''r'', ''d:X'')]]))))"
    by (rule conjunct2[THEN conjunct2])
next
  show "store (snd (workflow two_passage_env ''one|two'' True (start 0)))
       = [((''a:X'', ''r'', ''b:X''), ''one''), ((''c:X'', ''r'', ''d:X''), ''two'')]"
    by code_simp
next
  show "\<exists>evs1 evs2. trace (snd (workflow two_passage_env ''one|two'' True (start 0)))
         = trace (start 0) @ evs1 @ evs2
       \<and> (\<forall>e\<in>set evs1. extraction_event e) \<and> (\<forall>e\<in>set evs2. \<not> extraction_event e)"
    by (rule workflow_phases[THEN conjunct1])
qed

end
